theory Spec2Isabelle
  imports Main "HOL-Library.Word"
begin

section \<open>Python values and the built-ins the script applies to them\<close>

text \<open>
  The script \<^verbatim>\<open>sync_crexi.py\<close> handles the decoded API payload as untyped Python data:
  it calls \<^verbatim>\<open>.get\<close>, \<^verbatim>\<open>len\<close>, \<^verbatim>\<open>str\<close> and \<^verbatim>\<open>for ... in\<close> on whatever the JSON decoder
  produced. A decoded JSON value is one of the following. A dict is the list of its items
  in insertion order (the keys of a dict Python builds are distinct; a lookup returns the
  first binding). A float is carried as its IEEE-754 bit pattern: the script never
  computes with one. A string is a list of characters, one per code point (code points
  below 256).
\<close>

datatype json =
    JNull
  | JBool bool
  | JInt int
  | JFloat "64 word"
  | JStr string
  | JList "json list"
  | JDict "(string \<times> json) list"

type_synonym py_dict = "(string \<times> json) list"

text \<open>
  The exceptions that can occur: the two Python raises for a value of the wrong shape,
  the base class of the HTTP library's errors (the only class the prober catches),
  \<^verbatim>\<open>SystemExit\<close> with its status, and any other exception an external collaborator
  (HTTP library, JSON decoder, database client) raises, identified by a message.
\<close>

datatype py_exn =
    AttributeError
  | TypeError
  | RequestException
  | KeyError
  | SystemExit int
  | OtherException string

text \<open>\<^verbatim>\<open>obj.get(key, default)\<close>: only a dict has the method; the default is returned
  only when the key is absent, whatever value a present key holds.\<close>

fun py_get :: "json \<Rightarrow> string \<Rightarrow> json \<Rightarrow> py_exn + json" where
  "py_get (JDict kvs) k d = Inr (case map_of kvs k of Some v \<Rightarrow> v | None \<Rightarrow> d)"
| "py_get _ k d = Inl AttributeError"

text \<open>\<^verbatim>\<open>len(obj)\<close>: defined on lists, strings and dicts; a \<^verbatim>\<open>TypeError\<close> otherwise.\<close>

fun py_len :: "json \<Rightarrow> py_exn + nat" where
  "py_len (JList xs) = Inr (length xs)"
| "py_len (JStr s) = Inr (length s)"
| "py_len (JDict kvs) = Inr (length kvs)"
| "py_len _ = Inl TypeError"

text \<open>\<^verbatim>\<open>for x in obj\<close>: a list yields its elements, a string its one-character strings,
  a dict its keys; anything else is not iterable.\<close>

fun py_iter :: "json \<Rightarrow> py_exn + json list" where
  "py_iter (JList xs) = Inr xs"
| "py_iter (JStr s) = Inr (map (\<lambda>c. JStr [c]) s)"
| "py_iter (JDict kvs) = Inr (map (\<lambda>kv. JStr (fst kv)) kvs)"
| "py_iter _ = Inl TypeError"

text \<open>Decimal digits of a natural number, and \<^verbatim>\<open>str\<close> of a Python int.\<close>

function str_nat :: "nat \<Rightarrow> string" where
  "str_nat n =
     (if n < 10 then [''0123456789'' ! n]
      else str_nat (n div 10) @ [''0123456789'' ! (n mod 10)])"
  by pat_completeness auto
termination
  by (relation "measure (\<lambda>n. n)") auto

definition str_int :: "int \<Rightarrow> string" where
  "str_int i = (if i < 0 then CHR ''-'' # str_nat (nat (- i)) else str_nat (nat i))"

text \<open>
  \<^verbatim>\<open>str(obj)\<close> always returns a string. A string is returned as it is; \<^verbatim>\<open>None\<close>, the
  booleans and the ints print as below. The text Python prints for a float, a list or a
  dict is fixed by the interpreter, not by this program: it is the parameter \<open>repr\<close>.
\<close>

fun py_str :: "(json \<Rightarrow> string) \<Rightarrow> json \<Rightarrow> string" where
  "py_str repr (JStr s) = s"
| "py_str repr JNull = ''None''"
| "py_str repr (JBool b) = (if b then ''True'' else ''False'')"
| "py_str repr (JInt i) = str_int i"
| "py_str repr v = repr v"

text \<open>Sequencing of computations that may raise: the first exception wins.\<close>

fun raising :: "py_exn + 'a \<Rightarrow> ('a \<Rightarrow> py_exn + 'b) \<Rightarrow> py_exn + 'b" where
  "raising (Inl e) f = Inl e"
| "raising (Inr x) f = f x"

text \<open>A body run for every element in order, collecting the values, until one raises.\<close>

fun for_each :: "('a \<Rightarrow> py_exn + 'b) \<Rightarrow> 'a list \<Rightarrow> py_exn + 'b list" where
  "for_each f [] = Inr []"
| "for_each f (x # xs) =
     (case f x of
        Inl e \<Rightarrow> Inl e
      | Inr y \<Rightarrow> (case for_each f xs of Inl e \<Rightarrow> Inl e | Inr ys \<Rightarrow> Inr (y # ys)))"

section \<open>Configuration\<close>

definition TARGET_MARKET :: string where
  "TARGET_MARKET = ''Los Angeles''"

definition CREXI_BASE_URL :: string where
  "CREXI_BASE_URL = ''https://api.crexi.com''"

definition CREXI_STAGE_URL :: string where
  "CREXI_STAGE_URL = ''https://stage-api.crexi.com''"

section \<open>The record builders\<close>

text \<open>
  Line 140 and line 157: \<^verbatim>\<open>data.get('results', data.get('data', data.get('listings', [])))\<close>.
  Python evaluates the innermost default first.
\<close>

definition extract_listings :: "json \<Rightarrow> py_exn + json" where
  "extract_listings data =
     raising (py_get data ''listings'' (JList [])) (\<lambda>d2.
     raising (py_get data ''data'' d2) (\<lambda>d1.
     py_get data ''results'' d1))"

text \<open>Line 147 and line 162: \<^verbatim>\<open>listing.get('suites', [listing])\<close>.\<close>

definition suite_list :: "json \<Rightarrow> py_exn + json" where
  "suite_list listing = py_get listing ''suites'' (JList [listing])"

text \<open>
  \<^verbatim>\<open>process_market_snapshot\<close>. The dict literal is evaluated entry by entry, so
  \<^verbatim>\<open>len(listings)\<close> is taken before the sum is started; the generator of the sum visits
  the listings in order and stops at the first one that raises. \<open>now\<close> is the text
  \<^verbatim>\<open>datetime.now().isoformat()\<close> returns at this call.
\<close>

definition process_market_snapshot :: "string \<Rightarrow> json \<Rightarrow> py_exn + json" where
  "process_market_snapshot now data =
     raising (extract_listings data) (\<lambda>listings.
     raising (py_len listings) (\<lambda>total_properties.
     raising (py_iter listings) (\<lambda>items.
     raising (for_each (\<lambda>listing. raising (suite_list listing) py_len) items) (\<lambda>counts.
     Inr (JDict
       [(''snapshot_date'', JStr now),
        (''market_area'', JStr TARGET_MARKET),
        (''property_type'', JStr ''Industrial''),
        (''total_properties'', JInt (int total_properties)),
        (''total_suites'', JInt (int (sum_list counts))),
        (''notes'', JStr ''Synced from Crexi API''),
        (''raw_data'', data)])))))"

text \<open>
  The body of the inner loop of \<^verbatim>\<open>process_suite_snapshots\<close> (lines 165 to 181): one
  record for one suite of one listing. Every \<^verbatim>\<open>.get\<close> with a nested default evaluates
  the default first. A \<^verbatim>\<open>.get\<close> without default returns \<^verbatim>\<open>None\<close> for an absent key.
\<close>

definition suite_snapshot :: "(json \<Rightarrow> string) \<Rightarrow> string \<Rightarrow> json \<Rightarrow> json \<Rightarrow> py_exn + json" where
  "suite_snapshot repr now listing suite =
     raising (py_get listing ''assetId'' (JStr [])) (\<lambda>a2.
     raising (py_get listing ''id'' a2) (\<lambda>asset_id.
     raising (py_get suite ''suiteId'' (JStr [])) (\<lambda>s2.
     raising (py_get suite ''id'' s2) (\<lambda>suite_id.
     raising (py_get listing ''propertyType'' (JStr ''Industrial'')) (\<lambda>property_type.
     raising (py_get suite ''squareFeet'' JNull) (\<lambda>sz2.
     raising (py_get suite ''size'' sz2) (\<lambda>suite_size.
     raising (py_get suite ''leaseRate'' JNull) (\<lambda>r2.
     raising (py_get suite ''rate'' r2) (\<lambda>lease_rate.
     raising (py_get suite ''rateType'' (JStr ''Monthly'')) (\<lambda>rate_type.
     raising (py_get suite ''status'' (JStr ''Active'')) (\<lambda>status.
     raising (py_get suite ''address'' JNull) (\<lambda>ad2.
     raising (py_get listing ''address'' ad2) (\<lambda>address.
     raising (py_get suite ''city'' JNull) (\<lambda>c2.
     raising (py_get listing ''city'' c2) (\<lambda>city.
     raising (py_get suite ''state'' JNull) (\<lambda>st2.
     raising (py_get listing ''state'' st2) (\<lambda>state.
     raising (py_get suite ''zipCode'' JNull) (\<lambda>z2.
     raising (py_get listing ''zip'' z2) (\<lambda>zip_value.
     Inr (JDict
       [(''snapshot_date'', JStr now),
        (''crexi_asset_id'', JStr (py_str repr asset_id)),
        (''crexi_suite_id'', JStr (py_str repr suite_id)),
        (''market_area'', JStr TARGET_MARKET),
        (''property_type'', property_type),
        (''suite_size'', suite_size),
        (''lease_rate'', lease_rate),
        (''rate_type'', rate_type),
        (''status'', status),
        (''address'', address),
        (''city'', city),
        (''state'', state),
        (''zip'', zip_value),
        (''raw_data'', suite)]))))))))))))))))))))"

text \<open>
  The two loops of \<^verbatim>\<open>process_suite_snapshots\<close>. The clock is read once per record:
  \<open>now k\<close> is the reading for the \<open>k\<close>-th record appended (counted from 0), and each
  loop takes the number of records appended so far. An exception leaves the function at
  once, so the records collected before it are lost.
\<close>

fun suite_loop ::
  "(json \<Rightarrow> string) \<Rightarrow> (nat \<Rightarrow> string) \<Rightarrow> nat \<Rightarrow> json \<Rightarrow> json list \<Rightarrow> py_exn + json list" where
  "suite_loop repr now k listing [] = Inr []"
| "suite_loop repr now k listing (suite # rest) =
     (case suite_snapshot repr (now k) listing suite of
        Inl e \<Rightarrow> Inl e
      | Inr r \<Rightarrow>
          (case suite_loop repr now (Suc k) listing rest of
             Inl e \<Rightarrow> Inl e
           | Inr rs \<Rightarrow> Inr (r # rs)))"

fun listing_loop ::
  "(json \<Rightarrow> string) \<Rightarrow> (nat \<Rightarrow> string) \<Rightarrow> nat \<Rightarrow> json list \<Rightarrow> py_exn + json list" where
  "listing_loop repr now k [] = Inr []"
| "listing_loop repr now k (listing # rest) =
     (case raising (suite_list listing) py_iter of
        Inl e \<Rightarrow> Inl e
      | Inr suites \<Rightarrow>
          (case suite_loop repr now k listing suites of
             Inl e \<Rightarrow> Inl e
           | Inr rs \<Rightarrow>
               (case listing_loop repr now (k + length rs) rest of
                  Inl e \<Rightarrow> Inl e
                | Inr rs' \<Rightarrow> Inr (rs @ rs'))))"

definition process_suite_snapshots ::
  "(json \<Rightarrow> string) \<Rightarrow> (nat \<Rightarrow> string) \<Rightarrow> json \<Rightarrow> py_exn + json list" where
  "process_suite_snapshots repr now data =
     raising (extract_listings data) (\<lambda>listings.
     raising (py_iter listings) (\<lambda>items.
     listing_loop repr now 0 items))"

text \<open>Reading a key of a record the builders made (\<^verbatim>\<open>record['key']\<close>).\<close>

fun field :: "string \<Rightarrow> json \<Rightarrow> json option" where
  "field k (JDict kvs) = map_of kvs k"
| "field k _ = None"

text \<open>The suites of a listing as the loops of both builders visit them.\<close>

definition suites_of :: "json \<Rightarrow> py_exn + json list" where
  "suites_of listing = raising (suite_list listing) py_iter"

text \<open>
  The priority rule in words: the value of the first key of the list that the dict has,
  whatever that value is.
\<close>

fun first_present :: "py_dict \<Rightarrow> string list \<Rightarrow> json option" where
  "first_present kvs [] = None"
| "first_present kvs (k # ks) =
     (case map_of kvs k of Some v \<Rightarrow> Some v | None \<Rightarrow> first_present kvs ks)"

text \<open>
  The number of suites a listing stands for, in words: one for a listing without the key
  \<^verbatim>\<open>suites\<close>, and the length of the value of that key otherwise (zero for an empty one).
\<close>

definition fallback_suite_count :: "json \<Rightarrow> nat" where
  "fallback_suite_count listing =
     (case listing of
        JDict kvs \<Rightarrow>
          (case map_of kvs ''suites'' of
             None \<Rightarrow> 1
           | Some v \<Rightarrow> (case py_len v of Inr n \<Rightarrow> n | Inl e \<Rightarrow> 0))
      | _ \<Rightarrow> 0)"

section \<open>The configuration loader\<close>

text \<open>
  The three module-level values read by \<^verbatim>\<open>os.getenv\<close>: \<^verbatim>\<open>None\<close> for a variable that is
  not set. \<^verbatim>\<open>not value\<close> holds for \<^verbatim>\<open>None\<close> and for the empty string.
\<close>

record environment =
  CREXI_API_KEY :: "string option"
  SUPABASE_URL :: "string option"
  SUPABASE_KEY :: "string option"

definition unset :: "string option \<Rightarrow> bool" where
  "unset v = (case v of None \<Rightarrow> True | Some s \<Rightarrow> s = [])"

fun py_join :: "string \<Rightarrow> string list \<Rightarrow> string" where
  "py_join sep [] = []"
| "py_join sep [x] = x"
| "py_join sep (x # y # ys) = x @ sep @ py_join sep (y # ys)"

text \<open>The list \<^verbatim>\<open>missing\<close> after the three tests of lines 32 to 37.\<close>

definition missing_variables :: "environment \<Rightarrow> string list" where
  "missing_variables env =
     (if unset (CREXI_API_KEY env) then [''CREXI_API_KEY''] else []) @
     (if unset (SUPABASE_URL env) then [''SUPABASE_URL''] else []) @
     (if unset (SUPABASE_KEY env) then [''SUPABASE_KEY''] else [])"

text \<open>The cross mark U+274C that starts the message, in UTF-8.\<close>

definition cross_mark :: string where
  "cross_mark = [CHR 0xE2, CHR 0x9D, CHR 0x8C]"

text \<open>
  \<^verbatim>\<open>validate_environment\<close>: the texts given to \<^verbatim>\<open>print\<close>, one per call, and the
  outcome; \<^verbatim>\<open>sys.exit(1)\<close> raises \<^verbatim>\<open>SystemExit(1)\<close>.
\<close>

definition validate_environment :: "environment \<Rightarrow> string list \<times> (py_exn + unit)" where
  "validate_environment env =
     (let missing = missing_variables env in
      if missing \<noteq> [] then
        ([cross_mark @ '' Missing required environment variables: '' @ py_join '', '' missing,
          CHR 0x0A # ''Please set them in your environment or .env file:'',
          ''  export CREXI_API_KEY='' @ [CHR 0x27] @ ''your-api-key'' @ [CHR 0x27],
          ''  export SUPABASE_URL='' @ [CHR 0x27] @ ''your-supabase-url'' @ [CHR 0x27],
          ''  export SUPABASE_KEY='' @ [CHR 0x27] @ ''your-supabase-key'' @ [CHR 0x27]],
         Inl (SystemExit 1))
      else ([], Inr ()))"

section \<open>The endpoint prober\<close>

text \<open>
  One call \<^verbatim>\<open>requests.get(url, headers=headers, params=params, timeout=10)\<close>, and what
  the program reads of a response: the status and \<^verbatim>\<open>response.json()\<close>, which raises
  when the body is not JSON (an exception of the HTTP library's own class in current
  versions of the library, a \<^verbatim>\<open>ValueError\<close> in older ones).
\<close>

record http_request =
  url :: string
  headers :: py_dict
  params :: py_dict
  timeout :: int

record http_response =
  status_code :: int
  json_body :: "py_exn + json"

text \<open>
  The network is a parameter: what the \<open>n\<close>-th request of the run (counted from 0) is
  answered with, a response or a raised exception.
\<close>

type_synonym http_stub = "nat \<Rightarrow> http_request \<Rightarrow> py_exn + http_response"

definition headers_options :: "string option \<Rightarrow> py_dict list" where
  "headers_options key =
     [[(''Authorization'', JStr (''Bearer '' @ (case key of None \<Rightarrow> ''None'' | Some k \<Rightarrow> k)))],
      [(''x-api-key'', (case key of None \<Rightarrow> JNull | Some k \<Rightarrow> JStr k))],
      [(''api-key'', (case key of None \<Rightarrow> JNull | Some k \<Rightarrow> JStr k))]]"

definition endpoint_options :: "string list" where
  "endpoint_options =
     [''/v1/listings'', ''/v1/properties'', ''/api/v1/listings'', ''/api/v1/properties'',
      ''/listings'', ''/properties'']"

definition base_urls :: "string list" where
  "base_urls = [CREXI_BASE_URL, CREXI_STAGE_URL]"

definition search_params :: py_dict where
  "search_params =
     [(''market'', JStr TARGET_MARKET),
      (''propertyType'', JStr ''Industrial''),
      (''transactionType'', JStr ''Lease''),
      (''status'', JStr ''Active'')]"

text \<open>How the body of a loop ends: it falls through to the next round, returns from the
  function, or raises.\<close>

datatype 'a flow = Continue | Return 'a | Raise py_exn

text \<open>
  The \<^verbatim>\<open>try\<close> block of lines 96 to 121 for one combination. On status 200 the body is
  decoded and line 103 takes \<^verbatim>\<open>len(data.get('results', data.get('data', [])))\<close> for its
  message before the result is returned. The handler catches \<^verbatim>\<open>RequestException\<close>
  only, wherever in the block it was raised; any other exception leaves the function.
\<close>

definition attempt :: "http_stub \<Rightarrow> nat \<Rightarrow> http_request \<Rightarrow> json flow" where
  "attempt get n rq =
     (case
        raising (get n rq) (\<lambda>response.
          if status_code response = 200 then
            raising (json_body response) (\<lambda>data.
            raising (py_get data ''data'' (JList [])) (\<lambda>d1.
            raising (py_get data ''results'' d1) (\<lambda>shown.
            raising (py_len shown) (\<lambda>received.
            Inr (Some (JDict
              [(''success'', JBool True),
               (''endpoint'', JStr (url rq)),
               (''headers'', JDict (headers rq)),
               (''data'', data)]))))))
          else Inr None)
      of
        Inl e \<Rightarrow> (if e = RequestException then Continue else Raise e)
      | Inr None \<Rightarrow> Continue
      | Inr (Some result) \<Rightarrow> Return result)"

text \<open>
  The three nested loops of lines 91 to 121. Each returns the requests it sent, in order,
  and how it ended; \<open>n\<close> is the number of requests sent before it starts.
\<close>

fun headers_loop ::
  "http_stub \<Rightarrow> nat \<Rightarrow> string \<Rightarrow> py_dict list \<Rightarrow> http_request list \<times> json flow" where
  "headers_loop get n u [] = ([], Continue)"
| "headers_loop get n u (h # hs) =
     (let rq = \<lparr>url = u, headers = h, params = search_params, timeout = 10\<rparr> in
      case attempt get n rq of
        Continue \<Rightarrow> (case headers_loop get (Suc n) u hs of (sent, r) \<Rightarrow> (rq # sent, r))
      | r \<Rightarrow> ([rq], r))"

fun endpoint_loop ::
  "http_stub \<Rightarrow> nat \<Rightarrow> string option \<Rightarrow> string \<Rightarrow> string list \<Rightarrow>
     http_request list \<times> json flow" where
  "endpoint_loop get n key base_url [] = ([], Continue)"
| "endpoint_loop get n key base_url (endpoint # rest) =
     (case headers_loop get n (base_url @ endpoint) (headers_options key) of
        (sent, Continue) \<Rightarrow>
          (case endpoint_loop get (n + length sent) key base_url rest of
             (sent', r) \<Rightarrow> (sent @ sent', r))
      | (sent, r) \<Rightarrow> (sent, r))"

fun base_url_loop ::
  "http_stub \<Rightarrow> nat \<Rightarrow> string option \<Rightarrow> string list \<Rightarrow> http_request list \<times> json flow" where
  "base_url_loop get n key [] = ([], Continue)"
| "base_url_loop get n key (base_url # rest) =
     (case endpoint_loop get n key base_url endpoint_options of
        (sent, Continue) \<Rightarrow>
          (case base_url_loop get (n + length sent) key rest of
             (sent', r) \<Rightarrow> (sent @ sent', r))
      | (sent, r) \<Rightarrow> (sent, r))"

definition no_endpoint :: json where
  "no_endpoint = JDict [(''success'', JBool False), (''error'', JStr ''No working endpoint found'')]"

text \<open>\<^verbatim>\<open>fetch_crexi_listings\<close>: the requests sent, and the dict returned or the
  exception raised.\<close>

definition fetch_crexi_listings ::
  "http_stub \<Rightarrow> string option \<Rightarrow> http_request list \<times> (py_exn + json)" where
  "fetch_crexi_listings get key =
     (case base_url_loop get 0 key base_urls of
        (sent, Continue) \<Rightarrow> (sent, Inr no_endpoint)
      | (sent, Return result) \<Rightarrow> (sent, Inr result)
      | (sent, Raise e) \<Rightarrow> (sent, Inl e))"

text \<open>
  The combinations in the order of the nested loops, as one list, and a single loop over
  a list of requests; the nested loops are shown below to be this loop over this list.
\<close>

definition combinations :: "string option \<Rightarrow> http_request list" where
  "combinations key =
     concat (map (\<lambda>base_url.
       concat (map (\<lambda>endpoint.
         map (\<lambda>h. \<lparr>url = base_url @ endpoint, headers = h,
                    params = search_params, timeout = 10\<rparr>)
           (headers_options key))
         endpoint_options))
       base_urls)"

fun probe :: "http_stub \<Rightarrow> nat \<Rightarrow> http_request list \<Rightarrow> http_request list \<times> json flow" where
  "probe get n [] = ([], Continue)"
| "probe get n (rq # rqs) =
     (case attempt get n rq of
        Continue \<Rightarrow> (case probe get (Suc n) rqs of (sent, r) \<Rightarrow> (rq # sent, r))
      | r \<Rightarrow> ([rq], r))"

text \<open>An answer the prober passes over: a raised \<^verbatim>\<open>RequestException\<close>, a status other
  than 200, or a status 200 whose decoding raises \<^verbatim>\<open>RequestException\<close>.\<close>

definition passed_over :: "py_exn + http_response \<Rightarrow> bool" where
  "passed_over answer =
     (case answer of
        Inl e \<Rightarrow> e = RequestException
      | Inr response \<Rightarrow>
          (if status_code response = 200 then json_body response = Inl RequestException
           else True))"

text \<open>An answer that is no status 200: a transport failure or another status.\<close>

definition not_ok :: "py_exn + http_response \<Rightarrow> bool" where
  "not_ok answer =
     (case answer of
        Inl e \<Rightarrow> e = RequestException
      | Inr response \<Rightarrow> status_code response \<noteq> 200)"

text \<open>A decoded body on which line 103 does not raise: a dict whose entry \<^verbatim>\<open>results\<close>
  (or else \<^verbatim>\<open>data\<close>, or else the empty list) has a length.\<close>

definition countable_body :: "json \<Rightarrow> bool" where
  "countable_body data =
     (case data of
        JDict kvs \<Rightarrow>
          (case py_len (case first_present kvs [''results'', ''data''] of
                          Some v \<Rightarrow> v | None \<Rightarrow> JList []) of
             Inr n \<Rightarrow> True | Inl e \<Rightarrow> False)
      | _ \<Rightarrow> False)"

section \<open>The batch persister\<close>

text \<open>
  The database client is a parameter: whether the \<open>n\<close>-th insert of the run (counted from
  0), into the given table with the given rows, raises. An insert is the one call
  \<^verbatim>\<open>supabase.table(name).insert(rows).execute()\<close>.
\<close>

type_synonym insert_stub = "nat \<Rightarrow> string \<Rightarrow> json \<Rightarrow> py_exn option"

text \<open>The loop of lines 202 to 205 over \<^verbatim>\<open>range(0, len(suite_snapshots), batch_size)\<close>,
  from index \<open>i\<close>: the inserts issued, and the exception of the one that raised.\<close>

function batch_loop ::
  "insert_stub \<Rightarrow> nat \<Rightarrow> nat \<Rightarrow> json list \<Rightarrow> (string \<times> json) list \<times> py_exn option" where
  "batch_loop ins n i suite_snapshots =
     (if i < length suite_snapshots then
        (let batch = take 100 (drop i suite_snapshots) in
         case ins n ''crexi_suite_snapshots'' (JList batch) of
           Some e \<Rightarrow> ([(''crexi_suite_snapshots'', JList batch)], Some e)
         | None \<Rightarrow>
             (case batch_loop ins (Suc n) (i + 100) suite_snapshots of
                (calls, r) \<Rightarrow> ((''crexi_suite_snapshots'', JList batch) # calls, r)))
      else ([], None))"
  by pat_completeness auto
termination
  by (relation "measure (\<lambda>(ins, n, i, suite_snapshots). length suite_snapshots - i)") auto

text \<open>\<^verbatim>\<open>save_to_supabase\<close>: the inserts issued, in order, and the outcome. The handler of
  line 209 prints and re-raises the exception it caught.\<close>

definition save_to_supabase ::
  "insert_stub \<Rightarrow> json \<Rightarrow> json list \<Rightarrow> (string \<times> json) list \<times> (py_exn + unit)" where
  "save_to_supabase ins market_snapshot suite_snapshots =
     (case ins 0 ''crexi_market_snapshots'' market_snapshot of
        Some e \<Rightarrow> ([(''crexi_market_snapshots'', market_snapshot)], Inl e)
      | None \<Rightarrow>
          (if suite_snapshots \<noteq> [] then
             (case batch_loop ins 1 0 suite_snapshots of
                (calls, r) \<Rightarrow>
                  ((''crexi_market_snapshots'', market_snapshot) # calls,
                   (case r of Some e \<Rightarrow> Inl e | None \<Rightarrow> Inr ())))
           else ([(''crexi_market_snapshots'', market_snapshot)], Inr ())))"

text \<open>The batches in words: the list cut into consecutive pieces of \<open>n\<close> elements, the
  last one holding what is left.\<close>

function chunks :: "nat \<Rightarrow> 'a list \<Rightarrow> 'a list list" where
  "chunks n xs = (if n = 0 \<or> xs = [] then [] else take n xs # chunks n (drop n xs))"
  by pat_completeness auto
termination
  by (relation "measure (\<lambda>(n, xs). length xs)") auto

text \<open>The two loop equations are unfolded by hand, one round at a time.\<close>

declare chunks.simps [simp del] batch_loop.simps [simp del]

section \<open>The run\<close>

text \<open>
  \<^verbatim>\<open>main\<close>: the calls made to the outside, in order, and how the process ends. The
  construction of the database client is a parameter too (whether \<^verbatim>\<open>create_client\<close>
  raises); \<open>clock k\<close> is the \<open>k\<close>-th reading of the clock in the run. An exception that
  reaches the end of \<^verbatim>\<open>main\<close> is not caught anywhere.
\<close>

datatype event =
    ClientCreated "string option" "string option"
  | HttpGet http_request
  | DbInsert string json

definition main ::
  "environment \<Rightarrow> (string option \<Rightarrow> string option \<Rightarrow> py_exn option) \<Rightarrow> http_stub \<Rightarrow>
     insert_stub \<Rightarrow> (nat \<Rightarrow> string) \<Rightarrow> (json \<Rightarrow> string) \<Rightarrow> event list \<times> (py_exn + unit)" where
  "main env create_client get ins clock repr =
     (case snd (validate_environment env) of
        Inl e \<Rightarrow> ([], Inl e)
      | Inr u \<Rightarrow>
     (let ev1 = [ClientCreated (SUPABASE_URL env) (SUPABASE_KEY env)] in
      case create_client (SUPABASE_URL env) (SUPABASE_KEY env) of
        Some e \<Rightarrow> (ev1, Inl e)
      | None \<Rightarrow>
     (case fetch_crexi_listings get (CREXI_API_KEY env) of
        (sent, Inl e) \<Rightarrow> (ev1 @ map HttpGet sent, Inl e)
      | (sent, Inr result) \<Rightarrow>
     (let ev2 = ev1 @ map HttpGet sent in
      if field ''success'' result \<noteq> Some (JBool True) then (ev2, Inl (SystemExit 1))
      else
     (case field ''data'' result of
        None \<Rightarrow> (ev2, Inl KeyError)
      | Some data \<Rightarrow>
     (case process_market_snapshot (clock 0) data of
        Inl e \<Rightarrow> (ev2, Inl e)
      | Inr market_snapshot \<Rightarrow>
     (case process_suite_snapshots repr (\<lambda>k. clock (Suc k)) data of
        Inl e \<Rightarrow> (ev2, Inl e)
      | Inr suite_snapshots \<Rightarrow>
     (case save_to_supabase ins market_snapshot suite_snapshots of
        (calls, r) \<Rightarrow> (ev2 @ map (\<lambda>(t, rows). DbInsert t rows) calls, r)))))))))"

text \<open>The exit status of the process.\<close>

definition exit_status :: "py_exn + unit \<Rightarrow> int" where
  "exit_status r = (case r of Inr u \<Rightarrow> 0 | Inl (SystemExit c) \<Rightarrow> c | Inl e \<Rightarrow> 1)"

section \<open>Payloads of the expected shape\<close>

text \<open>
  The shape the builders are written for: the payload is an object, what is extracted
  from it can be looped over, every listing is an object, and the suite list of every
  listing can be looped over and holds objects only.
\<close>

fun is_dict :: "json \<Rightarrow> bool" where
  "is_dict (JDict kvs) = True"
| "is_dict _ = False"

definition shaped_listing :: "json \<Rightarrow> bool" where
  "shaped_listing listing =
     (is_dict listing \<and>
      (case suites_of listing of Inr suites \<Rightarrow> list_all is_dict suites | Inl e \<Rightarrow> False))"

definition well_shaped :: "json \<Rightarrow> bool" where
  "well_shaped data =
     (case raising (extract_listings data) py_iter of
        Inr listings \<Rightarrow> list_all shaped_listing listings
      | Inl e \<Rightarrow> False)"

section \<open>The values selected, and the example payload of the specification\<close>

text \<open>What the priority rule selects from a payload object.\<close>

definition selected_listings :: "py_dict \<Rightarrow> json" where
  "selected_listings kvs =
     (case first_present kvs [''results'', ''data'', ''listings''] of
        Some v \<Rightarrow> v | None \<Rightarrow> JList [])"

text \<open>
  The payload
  \<^verbatim>\<open>{"results": [{"id": "A1", "suites": [{"id": "S1", "size": 1000}, {"id": "S2", "size": 2000}]}]}\<close>,
  the records the suite builder makes of it when every clock reading is \<^verbatim>\<open>t1\<close>, and the
  market snapshot made of it at the reading \<^verbatim>\<open>t0\<close>.
\<close>

definition listing_A1 :: json where
  "listing_A1 =
     JDict [(''id'', JStr ''A1''),
            (''suites'', JList
               [JDict [(''id'', JStr ''S1''), (''size'', JInt 1000)],
                JDict [(''id'', JStr ''S2''), (''size'', JInt 2000)]])]"

definition payload_A1 :: json where
  "payload_A1 = JDict [(''results'', JList [listing_A1])]"

definition records_A1 :: "json list" where
  "records_A1 =
     [JDict
        [(''snapshot_date'', JStr ''t1''),
         (''crexi_asset_id'', JStr ''A1''),
         (''crexi_suite_id'', JStr ''S1''),
         (''market_area'', JStr ''Los Angeles''),
         (''property_type'', JStr ''Industrial''),
         (''suite_size'', JInt 1000),
         (''lease_rate'', JNull),
         (''rate_type'', JStr ''Monthly''),
         (''status'', JStr ''Active''),
         (''address'', JNull),
         (''city'', JNull),
         (''state'', JNull),
         (''zip'', JNull),
         (''raw_data'', JDict [(''id'', JStr ''S1''), (''size'', JInt 1000)])],
      JDict
        [(''snapshot_date'', JStr ''t1''),
         (''crexi_asset_id'', JStr ''A1''),
         (''crexi_suite_id'', JStr ''S2''),
         (''market_area'', JStr ''Los Angeles''),
         (''property_type'', JStr ''Industrial''),
         (''suite_size'', JInt 2000),
         (''lease_rate'', JNull),
         (''rate_type'', JStr ''Monthly''),
         (''status'', JStr ''Active''),
         (''address'', JNull),
         (''city'', JNull),
         (''state'', JNull),
         (''zip'', JNull),
         (''raw_data'', JDict [(''id'', JStr ''S2''), (''size'', JInt 2000)])]]"

definition market_A1 :: json where
  "market_A1 =
     JDict
       [(''snapshot_date'', JStr ''t0''),
        (''market_area'', JStr ''Los Angeles''),
        (''property_type'', JStr ''Industrial''),
        (''total_properties'', JInt 1),
        (''total_suites'', JInt 2),
        (''notes'', JStr ''Synced from Crexi API''),
        (''raw_data'', payload_A1)]"

text \<open>
  The payload \<^verbatim>\<open>{"data": [{"squareFeet": 500, "suites": [{"id": 7}]}]}\<close>: a listing without
  an id, with one suite whose id is a number and which has no size and no rate; and the
  record the suite builder makes of it at the clock reading \<^verbatim>\<open>t1\<close>.
\<close>

definition payload_no_id :: json where
  "payload_no_id =
     JDict [(''data'', JList
       [JDict [(''squareFeet'', JInt 500), (''suites'', JList [JDict [(''id'', JInt 7)]])]])]"

definition record_no_id :: json where
  "record_no_id =
     JDict
       [(''snapshot_date'', JStr ''t1''),
        (''crexi_asset_id'', JStr []),
        (''crexi_suite_id'', JStr ''7''),
        (''market_area'', JStr ''Los Angeles''),
        (''property_type'', JStr ''Industrial''),
        (''suite_size'', JNull),
        (''lease_rate'', JNull),
        (''rate_type'', JStr ''Monthly''),
        (''status'', JStr ''Active''),
        (''address'', JNull),
        (''city'', JNull),
        (''state'', JNull),
        (''zip'', JNull),
        (''raw_data'', JDict [(''id'', JInt 7)])]"

section \<open>The loader and the persister in words, and collaborators for example runs\<close>

text \<open>The three required variables, each with the value the environment gives it.\<close>

definition required_variables :: "(string \<times> (environment \<Rightarrow> string option)) list" where
  "required_variables =
     [(''CREXI_API_KEY'', CREXI_API_KEY), (''SUPABASE_URL'', SUPABASE_URL),
      (''SUPABASE_KEY'', SUPABASE_KEY)]"

text \<open>An environment with two of the three values missing, one absent and one empty, and
  collaborators for a run: a client that is always created, a network that never
  answers, a database that takes every insert.\<close>

definition env_two_missing :: environment where
  "env_two_missing =
     \<lparr>CREXI_API_KEY = None, SUPABASE_URL = Some [], SUPABASE_KEY = Some ''secret''\<rparr>"

definition client_ok :: "string option \<Rightarrow> string option \<Rightarrow> py_exn option" where
  "client_ok u k = None"

definition network_down :: http_stub where
  "network_down n rq = Inl RequestException"

definition insert_ok :: insert_stub where
  "insert_ok n t rows = None"

text \<open>
  Inserts issued one after the other until one raises: the calls made, the failing one
  included, and the outcome. \<open>n\<close> is the number of inserts issued before.
\<close>

fun issue ::
  "insert_stub \<Rightarrow> nat \<Rightarrow> (string \<times> json) list \<Rightarrow> (string \<times> json) list \<times> (py_exn + unit)" where
  "issue ins n [] = ([], Inr ())"
| "issue ins n (c # rest) =
     (case ins n (fst c) (snd c) of
        Some e \<Rightarrow> ([c], Inl e)
      | None \<Rightarrow> (case issue ins (Suc n) rest of (calls, r) \<Rightarrow> (c # calls, r)))"

text \<open>The inserts of a run that meets no failure: the market snapshot, then the suite
  snapshots in pieces of 100.\<close>

definition planned_inserts :: "json \<Rightarrow> json list \<Rightarrow> (string \<times> json) list" where
  "planned_inserts market_snapshot suite_snapshots =
     (''crexi_market_snapshots'', market_snapshot) #
     map (\<lambda>batch. (''crexi_suite_snapshots'', JList batch)) (chunks 100 suite_snapshots)"

text \<open>
  Collaborators for a complete run: an environment with the three values set, a network
  that answers the first request with status 200 and the example payload, a clock that
  reads \<^verbatim>\<open>t0\<close> first and \<^verbatim>\<open>t1\<close> afterwards, and databases that refuse the market
  insert, or the second suite batch.
\<close>

definition env_complete :: environment where
  "env_complete =
     \<lparr>CREXI_API_KEY = Some ''key'', SUPABASE_URL = Some ''https://db.example'',
      SUPABASE_KEY = Some ''secret''\<rparr>"

definition network_A1 :: http_stub where
  "network_A1 n rq = Inr \<lparr>status_code = 200, json_body = Inr payload_A1\<rparr>"

definition clock_A1 :: "nat \<Rightarrow> string" where
  "clock_A1 k = (if k = 0 then ''t0'' else ''t1'')"

definition market_insert_fails :: insert_stub where
  "market_insert_fails n t rows =
     (if t = ''crexi_market_snapshots'' then Some (OtherException ''market table is down'')
      else None)"

definition second_batch_fails :: insert_stub where
  "second_batch_fails n t rows = (if n = 2 then Some (OtherException ''timeout'') else None)"

text \<open>The first request the prober sends when the API key is \<^verbatim>\<open>key\<close>, and the result
  it returns when that request is answered with status 200 and the example payload.\<close>

definition first_request :: http_request where
  "first_request =
     \<lparr>url = ''https://api.crexi.com/v1/listings'',
      headers = [(''Authorization'', JStr ''Bearer key'')],
      params = search_params, timeout = 10\<rparr>"

definition result_A1 :: json where
  "result_A1 =
     JDict [(''success'', JBool True),
            (''endpoint'', JStr ''https://api.crexi.com/v1/listings''),
            (''headers'', JDict [(''Authorization'', JStr ''Bearer key'')]),
            (''data'', payload_A1)]"

text \<open>
  Networks for the prober: one that answers with status 200 and the
  body \<^verbatim>\<open>{"results": null}\<close>; one that answers 404 five times and then 200 with the
  example payload; one that answers 404 eighteen times and then 200; one that answers
  404 always; and one that answers 200 always with a body that is not JSON, where the
  decoder raises the HTTP library's own exception.
\<close>

definition not_found :: http_response where
  "not_found = \<lparr>status_code = 404, json_body = Inl (OtherException ''body is not JSON'')\<rparr>"

definition network_null_results :: http_stub where
  "network_null_results n rq =
     Inr \<lparr>status_code = 200, json_body = Inr (JDict [(''results'', JNull)])\<rparr>"

definition network_sixth :: http_stub where
  "network_sixth n rq =
     (if n < 5 then Inr not_found else Inr \<lparr>status_code = 200, json_body = Inr payload_A1\<rparr>)"



definition network_html :: http_stub where
  "network_html n rq = Inr \<lparr>status_code = 200, json_body = Inl RequestException\<rparr>"

section \<open>Facts about the built-ins and the loops\<close>

lemma raising_Inr_iff:
  "raising c f = Inr y \<longleftrightarrow> (\<exists>x. c = Inr x \<and> f x = Inr y)"
  by (cases c) simp_all

lemma py_len_of_iter: "py_iter v = Inr xs \<Longrightarrow> py_len v = Inr (length xs)"
  by (cases v) auto

lemma for_each_Inr_iff:
  "for_each f xs = Inr ys \<longleftrightarrow> map f xs = map Inr ys"
proof (induction xs arbitrary: ys)
  case Nil
  show ?case by auto
next
  case (Cons x xs)
  show ?case
  proof (cases "f x")
    case (Inl e)
    then show ?thesis by (cases ys) auto
  next
    case (Inr y)
    show ?thesis
    proof (cases "for_each f xs")
      case (Inl e)
      with Cons[of "tl ys"] Inr show ?thesis by (cases ys) auto
    next
      case r: (Inr zs)
      with Cons[of zs] Cons[of "tl ys"] Inr show ?thesis by (cases ys) auto
    qed
  qed
qed

lemma suite_snapshot_Inr:
  assumes "suite_snapshot repr t listing suite = Inr r"
  shows "\<exists>lkvs skvs. listing = JDict lkvs \<and> suite = JDict skvs \<and>
          field ''raw_data'' r = Some suite \<and>
          field ''crexi_asset_id'' r = Some (JStr (py_str repr
             (case map_of lkvs ''id'' of Some v \<Rightarrow> v | None \<Rightarrow>
                (case map_of lkvs ''assetId'' of Some v \<Rightarrow> v | None \<Rightarrow> JStr [])))) \<and>
          field ''crexi_suite_id'' r = Some (JStr (py_str repr
             (case map_of skvs ''id'' of Some v \<Rightarrow> v | None \<Rightarrow>
                (case map_of skvs ''suiteId'' of Some v \<Rightarrow> v | None \<Rightarrow> JStr [])))) \<and>
          field ''suite_size'' r = Some
             (case map_of skvs ''size'' of Some v \<Rightarrow> v | None \<Rightarrow>
                (case map_of skvs ''squareFeet'' of Some v \<Rightarrow> v | None \<Rightarrow> JNull)) \<and>
          field ''lease_rate'' r = Some
             (case map_of skvs ''rate'' of Some v \<Rightarrow> v | None \<Rightarrow>
                (case map_of skvs ''leaseRate'' of Some v \<Rightarrow> v | None \<Rightarrow> JNull))"
proof -
  from assms obtain lkvs where l: "listing = JDict lkvs"
    by (cases listing) (simp_all add: suite_snapshot_def)
  from assms l obtain skvs where s: "suite = JDict skvs"
    by (cases suite) (simp_all add: suite_snapshot_def)
  from assms show ?thesis unfolding l s
    by (auto simp add: suite_snapshot_def)
qed

lemma suite_snapshot_dicts:
  "\<exists>r. suite_snapshot repr t (JDict lkvs) (JDict skvs) = Inr r"
  by (simp add: suite_snapshot_def)

lemma suite_loop_Inr:
  "suite_loop repr now k listing ss = Inr rs \<Longrightarrow>
     length rs = length ss \<and>
     (\<forall>i<length ss. suite_snapshot repr (now (k + i)) listing (ss ! i) = Inr (rs ! i))"
proof (induction ss arbitrary: k rs)
  case Nil
  then show ?case by simp
next
  case (Cons s ss)
  from Cons.prems obtain r rs' where
    r: "suite_snapshot repr (now k) listing s = Inr r" and
    rs': "suite_loop repr now (Suc k) listing ss = Inr rs'" and
    rs: "rs = r # rs'"
    by (auto split: sum.splits)
  from Cons.IH[OF rs'] have len: "length rs' = length ss" and
    ih: "\<forall>i<length ss. suite_snapshot repr (now (Suc k + i)) listing (ss ! i) = Inr (rs' ! i)"
    by simp_all
  show ?case
  proof (intro conjI allI impI)
    show "length rs = length (s # ss)" using len rs by simp
  next
    fix i assume "i < length (s # ss)"
    then show "suite_snapshot repr (now (k + i)) listing ((s # ss) ! i) = Inr (rs ! i)"
      using r ih rs by (cases i) simp_all
  qed
qed

lemma listing_loop_Inr:
  "listing_loop repr now k ls = Inr rs \<Longrightarrow>
     \<exists>sss. map suites_of ls = map Inr sss \<and>
           map (field ''raw_data'') rs = map Some (concat sss)"
proof (induction ls arbitrary: k rs)
  case Nil
  then show ?case by simp
next
  case (Cons l ls)
  from Cons.prems obtain ss rs1 rs2 where
    ss: "raising (suite_list l) py_iter = Inr ss" and
    rs1: "suite_loop repr now k l ss = Inr rs1" and
    rs2: "listing_loop repr now (k + length rs1) ls = Inr rs2" and
    rs: "rs = rs1 @ rs2"
    by (auto split: sum.splits)
  from Cons.IH[OF rs2] obtain sss where
    sss: "map suites_of ls = map Inr sss" "map (field ''raw_data'') rs2 = map Some (concat sss)"
    by blast
  from suite_loop_Inr[OF rs1] have len: "length rs1 = length ss"
    and each: "\<forall>i<length ss. suite_snapshot repr (now (k + i)) l (ss ! i) = Inr (rs1 ! i)"
    by simp_all
  have "map (field ''raw_data'') rs1 = map Some ss"
  proof (rule nth_equalityI)
    show "length (map (field ''raw_data'') rs1) = length (map Some ss)" using len by simp
  next
    fix i assume "i < length (map (field ''raw_data'') rs1)"
    then have i: "i < length ss" using len by simp
    with each have "suite_snapshot repr (now (k + i)) l (ss ! i) = Inr (rs1 ! i)" by blast
    from suite_snapshot_Inr[OF this] have "field ''raw_data'' (rs1 ! i) = Some (ss ! i)" by blast
    with i len show "map (field ''raw_data'') rs1 ! i = map Some ss ! i" by simp
  qed
  with sss ss rs have
    "map suites_of (l # ls) = map Inr (ss # sss) \<and>
     map (field ''raw_data'') rs = map Some (concat (ss # sss))"
    by (simp add: suites_of_def)
  then show ?case by blast
qed

lemma suite_counts_of_suites:
  assumes "map suites_of ls = map Inr sss"
  shows "for_each (\<lambda>l. raising (suite_list l) py_len) ls = Inr (map length sss)"
proof -
  have "map (\<lambda>l. raising (suite_list l) py_len) ls = map Inr (map length sss)"
  proof (rule nth_equalityI)
    show "length (map (\<lambda>l. raising (suite_list l) py_len) ls) = length (map Inr (map length sss))"
      using assms by (metis length_map)
  next
    fix i assume "i < length (map (\<lambda>l. raising (suite_list l) py_len) ls)"
    then have i: "i < length ls" by simp
    have len: "length sss = length ls" using assms by (metis length_map)
    from assms i have "suites_of (ls ! i) = Inr (sss ! i)"
      by (metis len nth_map)
    then obtain v where "suite_list (ls ! i) = Inr v" "py_iter v = Inr (sss ! i)"
      by (auto simp: suites_of_def raising_Inr_iff)
    then have "raising (suite_list (ls ! i)) py_len = Inr (length (sss ! i))"
      by (simp add: py_len_of_iter)
    with i len show "map (\<lambda>l. raising (suite_list l) py_len) ls ! i = map Inr (map length sss) ! i"
      by simp
  qed
  then show ?thesis by (simp add: for_each_Inr_iff)
qed

lemma listing_loop_member:
  "listing_loop repr now k ls = Inr rs \<Longrightarrow> r \<in> set rs \<Longrightarrow>
     \<exists>l ss s t. l \<in> set ls \<and> suites_of l = Inr ss \<and> s \<in> set ss \<and>
                suite_snapshot repr t l s = Inr r"
proof (induction ls arbitrary: k rs)
  case Nil
  then show ?case by simp
next
  case (Cons l ls)
  from Cons.prems(1) obtain ss rs1 rs2 where
    ss: "raising (suite_list l) py_iter = Inr ss" and
    rs1: "suite_loop repr now k l ss = Inr rs1" and
    rs2: "listing_loop repr now (k + length rs1) ls = Inr rs2" and
    rs: "rs = rs1 @ rs2"
    by (auto split: sum.splits)
  from Cons.prems(2) rs consider "r \<in> set rs1" | "r \<in> set rs2" by auto
  then show ?case
  proof cases
    case 1
    then obtain i where i: "i < length rs1" "rs1 ! i = r" by (auto simp: in_set_conv_nth)
    from suite_loop_Inr[OF rs1] i have
      "i < length ss" "suite_snapshot repr (now (k + i)) l (ss ! i) = Inr r"
      by auto
    with ss show ?thesis
      by (metis list.set_intros(1) nth_mem suites_of_def)
  next
    case 2
    from Cons.IH[OF rs2 2] show ?thesis
      by (metis list.set_intros(2))
  qed
qed

lemma process_suite_snapshots_Inr:
  assumes "process_suite_snapshots repr now data = Inr rs"
  shows "\<exists>v items. extract_listings data = Inr v \<and> py_iter v = Inr items \<and>
           listing_loop repr now 0 items = Inr rs"
  using assms by (auto simp: process_suite_snapshots_def raising_Inr_iff)

lemma process_market_snapshot_Inr:
  assumes "process_market_snapshot t data = Inr m"
  shows "\<exists>v items counts. extract_listings data = Inr v \<and> py_iter v = Inr items \<and>
           map (\<lambda>l. raising (suite_list l) py_len) items = map Inr counts \<and>
           field ''total_properties'' m = Some (JInt (int (length items))) \<and>
           field ''total_suites'' m = Some (JInt (int (sum_list counts)))"
proof -
  from assms obtain v n items counts where
    v: "extract_listings data = Inr v" and n: "py_len v = Inr n" and
    items: "py_iter v = Inr items" and
    counts: "for_each (\<lambda>l. raising (suite_list l) py_len) items = Inr counts" and
    m: "m = JDict
       [(''snapshot_date'', JStr t),
        (''market_area'', JStr TARGET_MARKET),
        (''property_type'', JStr ''Industrial''),
        (''total_properties'', JInt (int n)),
        (''total_suites'', JInt (int (sum_list counts))),
        (''notes'', JStr ''Synced from Crexi API''),
        (''raw_data'', data)]"
    unfolding process_market_snapshot_def raising_Inr_iff by blast
  from n items have "n = length items" by (simp add: py_len_of_iter)
  with v items counts m show ?thesis
    by (simp add: for_each_Inr_iff)
qed

lemma fallback_suite_count_eq:
  "raising (suite_list l) py_len = Inr n \<Longrightarrow> fallback_suite_count l = n"
  by (cases l) (auto simp: suite_list_def fallback_suite_count_def split: option.splits)

lemma is_dict_iff: "is_dict v \<longleftrightarrow> (\<exists>kvs. v = JDict kvs)"
  by (cases v) simp_all

lemma suite_loop_total:
  "is_dict listing \<Longrightarrow> list_all is_dict ss \<Longrightarrow>
     \<exists>rs. suite_loop repr now k listing ss = Inr rs"
proof (induction ss arbitrary: k)
  case Nil
  show ?case by simp
next
  case (Cons s ss)
  from Cons.prems obtain lkvs skvs where d: "listing = JDict lkvs" "s = JDict skvs"
    by (auto simp: is_dict_iff)
  obtain r where r: "suite_snapshot repr (now k) (JDict lkvs) (JDict skvs) = Inr r"
    using suite_snapshot_dicts by blast
  from Cons obtain rs where "suite_loop repr now (Suc k) listing ss = Inr rs"
    by fastforce
  with r d show ?case by simp
qed

lemma listing_loop_total:
  "list_all shaped_listing ls \<Longrightarrow> \<exists>rs. listing_loop repr now k ls = Inr rs"
proof (induction ls arbitrary: k)
  case Nil
  show ?case by simp
next
  case (Cons l ls)
  from Cons.prems obtain ss where
    l: "is_dict l" "suites_of l = Inr ss" "list_all is_dict ss"
    by (auto simp: shaped_listing_def split: sum.splits)
  from suite_loop_total[OF l(1,3)] obtain rs1 where
    rs1: "suite_loop repr now k l ss = Inr rs1"
    by blast
  from Cons obtain rs2 where "listing_loop repr now (k + length rs1) ls = Inr rs2"
    by fastforce
  with l(2) rs1 show ?case by (simp add: suites_of_def)
qed

lemma process_suite_snapshots_total:
  "well_shaped data \<Longrightarrow> \<exists>rs. process_suite_snapshots repr now data = Inr rs"
proof -
  assume "well_shaped data"
  then obtain v ls where
    v: "extract_listings data = Inr v" "py_iter v = Inr ls" "list_all shaped_listing ls"
    by (auto simp: well_shaped_def raising_Inr_iff split: sum.splits)
  from listing_loop_total[OF v(3)] obtain rs where "listing_loop repr now 0 ls = Inr rs"
    by blast
  with v show ?thesis by (simp add: process_suite_snapshots_def)
qed

section \<open>Properties of the response normalizer inside the builders\<close>

lemma extract_listings_dict:
  "extract_listings (JDict kvs) = Inr (selected_listings kvs)"
  by (simp add: extract_listings_def selected_listings_def split: option.splits)

text \<open>
  C2, counterexample. The payload \<^verbatim>\<open>{"results": [], "data": [{"id": "A1"}]}\<close> has the key
  \<^verbatim>\<open>data\<close> present as a non-empty array, and yet the extracted sequence is empty: the
  key \<^verbatim>\<open>results\<close> is present and wins, empty as it is. And the payload
  \<^verbatim>\<open>{"results": "x"}\<close> has none of the three keys present as a non-empty array, and what
  is extracted is the string, not the empty sequence.
\<close>

theorem extract_listings_nonempty_counterexample:
  "extract_listings (JDict [(''results'', JList []), (''data'', JList [JDict [(''id'', JStr ''A1'')]])])
     = Inr (JList []) \<and>
   extract_listings (JDict [(''results'', JStr ''x'')]) = Inr (JStr ''x'')"
  by (simp add: extract_listings_def)

text \<open>
  C2, as amended. For every payload that is a JSON object, what both builders extract is
  the value of the first of the keys \<^verbatim>\<open>results\<close>, \<^verbatim>\<open>data\<close>, \<^verbatim>\<open>listings\<close> that is present,
  whatever that value is, and the empty sequence when none of the three is present. So
  the empty sequence is extracted exactly when no key is present or the first present
  one holds an empty array. Both builders work on that extracted value: the suite
  builder loops over it, and the market builder counts it.
\<close>

theorem extract_listings_priority:
  "extract_listings (JDict kvs) =
     Inr (case first_present kvs [''results'', ''data'', ''listings''] of
            Some v \<Rightarrow> v | None \<Rightarrow> JList []) \<and>
   (extract_listings (JDict kvs) = Inr (JList []) \<longleftrightarrow>
      first_present kvs [''results'', ''data'', ''listings''] = None \<or>
      first_present kvs [''results'', ''data'', ''listings''] = Some (JList [])) \<and>
   process_suite_snapshots repr now (JDict kvs) =
     raising (py_iter (selected_listings kvs)) (listing_loop repr now 0) \<and>
   (\<forall>m. process_market_snapshot t (JDict kvs) = Inr m \<longrightarrow>
      (\<exists>n. py_len (selected_listings kvs) = Inr n \<and>
           field ''total_properties'' m = Some (JInt (int n))))"
proof (intro conjI allI impI)
  show "extract_listings (JDict kvs) =
     Inr (case first_present kvs [''results'', ''data'', ''listings''] of
            Some v \<Rightarrow> v | None \<Rightarrow> JList [])"
    using extract_listings_dict[of kvs] by (simp add: selected_listings_def)
  then show "extract_listings (JDict kvs) = Inr (JList []) \<longleftrightarrow>
      first_present kvs [''results'', ''data'', ''listings''] = None \<or>
      first_present kvs [''results'', ''data'', ''listings''] = Some (JList [])"
    by (cases "first_present kvs [''results'', ''data'', ''listings'']") auto
  show "process_suite_snapshots repr now (JDict kvs) =
     raising (py_iter (selected_listings kvs)) (listing_loop repr now 0)"
    by (simp add: process_suite_snapshots_def extract_listings_dict)
next
  fix m assume m: "process_market_snapshot t (JDict kvs) = Inr m"
  from process_market_snapshot_Inr[OF m] obtain items where
    "py_iter (selected_listings kvs) = Inr items"
    "field ''total_properties'' m = Some (JInt (int (length items)))"
    by (auto simp: extract_listings_dict)
  then show "\<exists>n. py_len (selected_listings kvs) = Inr n \<and>
           field ''total_properties'' m = Some (JInt (int n))"
    by (auto simp: py_len_of_iter)
qed

text \<open>
  C2, witness: the payload \<^verbatim>\<open>{"listings": [{"id": "A1"}], "other": 1}\<close>, where the third
  key of the priority list is the first one present.
\<close>

theorem extract_listings_priority_witness:
  "extract_listings (JDict [(''listings'', JList [JDict [(''id'', JStr ''A1'')]]), (''other'', JInt 1)])
     = Inr (JList [JDict [(''id'', JStr ''A1'')]]) \<and>
   (\<exists>n. py_len (selected_listings
            [(''listings'', JList [JDict [(''id'', JStr ''A1'')]]), (''other'', JInt 1)]) = Inr n \<and>
        field ''total_properties''
          (JDict
            [(''snapshot_date'', JStr ''2026''),
             (''market_area'', JStr ''Los Angeles''),
             (''property_type'', JStr ''Industrial''),
             (''total_properties'', JInt 1),
             (''total_suites'', JInt 1),
             (''notes'', JStr ''Synced from Crexi API''),
             (''raw_data'',
              JDict [(''listings'', JList [JDict [(''id'', JStr ''A1'')]]), (''other'', JInt 1)])])
          = Some (JInt (int n)))"
proof -
  let ?kvs = "[(''listings'', JList [JDict [(''id'', JStr ''A1'')]]), (''other'', JInt 1)]"
  let ?m = "JDict
            [(''snapshot_date'', JStr ''2026''),
             (''market_area'', JStr ''Los Angeles''),
             (''property_type'', JStr ''Industrial''),
             (''total_properties'', JInt 1),
             (''total_suites'', JInt 1),
             (''notes'', JStr ''Synced from Crexi API''),
             (''raw_data'', JDict ?kvs)]"
  have built: "process_market_snapshot ''2026'' (JDict ?kvs) = Inr ?m"
    by (simp add: process_market_snapshot_def extract_listings_def suite_list_def
        TARGET_MARKET_def)
  note rule = extract_listings_priority[of ?kvs "\<lambda>v. []" "\<lambda>k. []" "''2026''"]
  from rule have first: "extract_listings (JDict ?kvs) = Inr (JList [JDict [(''id'', JStr ''A1'')]])"
    by simp
  from rule built have
    "\<exists>n. py_len (selected_listings ?kvs) = Inr n \<and>
         field ''total_properties'' ?m = Some (JInt (int n))"
    by blast
  with first show ?thesis by blast
qed

text \<open>
  C1, counterexample. The listing \<^verbatim>\<open>{"id": "A1", "suites": []}\<close> has the key \<^verbatim>\<open>suites\<close>
  present and empty. Its suite list is that empty list, not the list holding the
  listing itself, and the suite builder emits no record for it.
\<close>

theorem suite_list_empty_suites_counterexample:
  "suite_list (JDict [(''id'', JStr ''A1''), (''suites'', JList [])]) = Inr (JList []) \<and>
   suite_list (JDict [(''id'', JStr ''A1''), (''suites'', JList [])])
     \<noteq> Inr (JList [JDict [(''id'', JStr ''A1''), (''suites'', JList [])]]) \<and>
   process_suite_snapshots (\<lambda>v. []) (\<lambda>k. [])
     (JDict [(''results'', JList [JDict [(''id'', JStr ''A1''), (''suites'', JList [])]])]) = Inr []"
  by (simp add: suite_list_def process_suite_snapshots_def extract_listings_def)

text \<open>
  C1, as amended. For every listing object, the suite list used by both record builders
  is the value of the listing's \<^verbatim>\<open>suites\<close> key if that key is present (whatever it holds,
  an empty list included), and otherwise a single-element list containing the listing
  itself. Both builders use it: the source objects of the records the suite builder
  returns are the suite lists of the extracted listings one after the other, and the
  \<^verbatim>\<open>total_suites\<close> of the market builder is the sum of their lengths. For the payload
  \<^verbatim>\<open>{"data": [{"assetId": "A2", "squareFeet": 500}]}\<close>, whose one listing has no
  \<^verbatim>\<open>suites\<close> key, the suite builder emits exactly one record, with \<^verbatim>\<open>suite_size\<close> 500 and
  \<^verbatim>\<open>crexi_asset_id\<close> "A2".
\<close>

theorem suite_list_rule:
  "suite_list (JDict kvs) =
     Inr (case map_of kvs ''suites'' of Some v \<Rightarrow> v | None \<Rightarrow> JList [JDict kvs]) \<and>
   (process_suite_snapshots repr now data = Inr rs \<longrightarrow>
      (\<exists>v items sss. extract_listings data = Inr v \<and> py_iter v = Inr items \<and>
         map suites_of items = map Inr sss \<and>
         map (field ''raw_data'') rs = map Some (concat sss))) \<and>
   (process_market_snapshot t data = Inr m \<longrightarrow>
      (\<exists>v items counts. extract_listings data = Inr v \<and> py_iter v = Inr items \<and>
         map (\<lambda>l. raising (suite_list l) py_len) items = map Inr counts \<and>
         field ''total_suites'' m = Some (JInt (int (sum_list counts))))) \<and>
   process_suite_snapshots repr now
     (JDict [(''data'', JList [JDict [(''assetId'', JStr ''A2''), (''squareFeet'', JInt 500)]])])
     = Inr [JDict
         [(''snapshot_date'', JStr (now 0)),
          (''crexi_asset_id'', JStr ''A2''),
          (''crexi_suite_id'', JStr []),
          (''market_area'', JStr ''Los Angeles''),
          (''property_type'', JStr ''Industrial''),
          (''suite_size'', JInt 500),
          (''lease_rate'', JNull),
          (''rate_type'', JStr ''Monthly''),
          (''status'', JStr ''Active''),
          (''address'', JNull),
          (''city'', JNull),
          (''state'', JNull),
          (''zip'', JNull),
          (''raw_data'', JDict [(''assetId'', JStr ''A2''), (''squareFeet'', JInt 500)])]]"
proof (intro conjI impI)
  show "suite_list (JDict kvs) =
     Inr (case map_of kvs ''suites'' of Some v \<Rightarrow> v | None \<Rightarrow> JList [JDict kvs])"
    by (simp add: suite_list_def)
next
  assume "process_suite_snapshots repr now data = Inr rs"
  from process_suite_snapshots_Inr[OF this] obtain v items where
    v: "extract_listings data = Inr v" "py_iter v = Inr items" and
    lp: "listing_loop repr now 0 items = Inr rs"
    by blast
  from listing_loop_Inr[OF lp] v
  show "\<exists>v items sss. extract_listings data = Inr v \<and> py_iter v = Inr items \<and>
         map suites_of items = map Inr sss \<and>
         map (field ''raw_data'') rs = map Some (concat sss)"
    by blast
next
  assume "process_market_snapshot t data = Inr m"
  from process_market_snapshot_Inr[OF this]
  show "\<exists>v items counts. extract_listings data = Inr v \<and> py_iter v = Inr items \<and>
         map (\<lambda>l. raising (suite_list l) py_len) items = map Inr counts \<and>
         field ''total_suites'' m = Some (JInt (int (sum_list counts)))"
    by blast
next
  show "process_suite_snapshots repr now
     (JDict [(''data'', JList [JDict [(''assetId'', JStr ''A2''), (''squareFeet'', JInt 500)]])])
     = Inr [JDict
         [(''snapshot_date'', JStr (now 0)),
          (''crexi_asset_id'', JStr ''A2''),
          (''crexi_suite_id'', JStr []),
          (''market_area'', JStr ''Los Angeles''),
          (''property_type'', JStr ''Industrial''),
          (''suite_size'', JInt 500),
          (''lease_rate'', JNull),
          (''rate_type'', JStr ''Monthly''),
          (''status'', JStr ''Active''),
          (''address'', JNull),
          (''city'', JNull),
          (''state'', JNull),
          (''zip'', JNull),
          (''raw_data'', JDict [(''assetId'', JStr ''A2''), (''squareFeet'', JInt 500)])]]"
    by (simp add: process_suite_snapshots_def extract_listings_def suite_list_def
        suite_snapshot_def TARGET_MARKET_def)
qed

lemma suites_A1: "process_suite_snapshots (\<lambda>v. []) (\<lambda>k. ''t1'') payload_A1 = Inr records_A1"
  by (simp add: process_suite_snapshots_def extract_listings_def suite_list_def
      suite_snapshot_def TARGET_MARKET_def payload_A1_def listing_A1_def records_A1_def)

lemma market_of_A1: "process_market_snapshot ''t0'' payload_A1 = Inr market_A1"
  by (simp add: process_market_snapshot_def extract_listings_def suite_list_def
      TARGET_MARKET_def payload_A1_def listing_A1_def market_A1_def)

text \<open>
  C1, witness: the payload
  \<^verbatim>\<open>{"results": [{"id": "A1", "suites": [{"id": "S1", "size": 1000}, {"id": "S2", "size": 2000}]}]}\<close>
  of the specification. Both builders return, the two records come from the two suites
  in order, and the market snapshot counts two suites.
\<close>

theorem suite_list_rule_witness:
  "process_suite_snapshots (\<lambda>v. []) (\<lambda>k. ''t1'') payload_A1 = Inr records_A1 \<and>
   process_market_snapshot ''t0'' payload_A1 = Inr market_A1 \<and>
   (\<exists>v items sss. extract_listings payload_A1 = Inr v \<and> py_iter v = Inr items \<and>
      map suites_of items = map Inr sss \<and>
      map (field ''raw_data'') records_A1 = map Some (concat sss)) \<and>
   (\<exists>v items counts. extract_listings payload_A1 = Inr v \<and> py_iter v = Inr items \<and>
      map (\<lambda>l. raising (suite_list l) py_len) items = map Inr counts \<and>
      field ''total_suites'' market_A1 = Some (JInt (int (sum_list counts))))"
  using suite_list_rule[of "[]" "\<lambda>v. []" "\<lambda>k. ''t1''" payload_A1 records_A1 "''t0''" market_A1]
    suites_A1 market_of_A1
  by blast

section \<open>Properties of the market snapshot builder\<close>

text \<open>
  C3, counterexample. For the payload \<^verbatim>\<open>{"results": [{"id": "A1", "suites": []}]}\<close> the
  market snapshot has \<^verbatim>\<open>total_properties\<close> 1 and \<^verbatim>\<open>total_suites\<close> 0: the one listing
  contributes 0 suites, below the minimum of 1 the claim gives every listing.
\<close>

theorem total_suites_minimum_counterexample:
  "process_market_snapshot ''t0''
     (JDict [(''results'', JList [JDict [(''id'', JStr ''A1''), (''suites'', JList [])]])])
   = Inr (JDict
       [(''snapshot_date'', JStr ''t0''),
        (''market_area'', JStr ''Los Angeles''),
        (''property_type'', JStr ''Industrial''),
        (''total_properties'', JInt 1),
        (''total_suites'', JInt 0),
        (''notes'', JStr ''Synced from Crexi API''),
        (''raw_data'',
         JDict [(''results'', JList [JDict [(''id'', JStr ''A1''), (''suites'', JList [])]])])])"
  by (simp add: process_market_snapshot_def extract_listings_def suite_list_def TARGET_MARKET_def)

text \<open>
  C3, as amended. For every raw payload, the market snapshot built by the market snapshot
  builder has \<^verbatim>\<open>total_properties\<close> equal to the count of extracted top-level listings, and
  \<^verbatim>\<open>total_suites\<close> equal to the sum over the listings of the length of that listing's
  suite list, where a listing without the key \<^verbatim>\<open>suites\<close> contributes 1 and a listing with
  that key contributes the length of its value, which is 0 for an empty one. The
  snapshot is built whenever every listing's suite list has a length.
\<close>

theorem market_snapshot_counts:
  assumes "extract_listings data = Inr v" and "py_iter v = Inr ls"
  shows "(\<forall>m. process_market_snapshot t data = Inr m \<longrightarrow>
            field ''total_properties'' m = Some (JInt (int (length ls))) \<and>
            field ''total_suites'' m = Some (JInt (int (\<Sum>l\<leftarrow>ls. fallback_suite_count l)))) \<and>
         ((\<forall>l\<in>set ls. \<exists>n. raising (suite_list l) py_len = Inr n) \<longrightarrow>
            (\<exists>m. process_market_snapshot t data = Inr m))"
proof (intro conjI allI impI)
  fix m assume m: "process_market_snapshot t data = Inr m"
  from process_market_snapshot_Inr[OF m] assms obtain counts where
    c: "map (\<lambda>l. raising (suite_list l) py_len) ls = map Inr counts" and
    p: "field ''total_properties'' m = Some (JInt (int (length ls)))" and
    s: "field ''total_suites'' m = Some (JInt (int (sum_list counts)))"
    by auto
  have "map fallback_suite_count ls = counts"
  proof (rule nth_equalityI)
    show "length (map fallback_suite_count ls) = length counts" using c by (metis length_map)
  next
    fix i assume "i < length (map fallback_suite_count ls)"
    then have i: "i < length ls" by simp
    have "length counts = length ls" using c by (metis length_map)
    with c i have "raising (suite_list (ls ! i)) py_len = Inr (counts ! i)"
      by (metis nth_map)
    from fallback_suite_count_eq[OF this] i
    show "map fallback_suite_count ls ! i = counts ! i" by simp
  qed
  with s show "field ''total_suites'' m = Some (JInt (int (\<Sum>l\<leftarrow>ls. fallback_suite_count l)))"
    by simp
  from p show "field ''total_properties'' m = Some (JInt (int (length ls)))" .
next
  assume sized: "\<forall>l\<in>set ls. \<exists>n. raising (suite_list l) py_len = Inr n"
  have "\<exists>counts. for_each (\<lambda>l. raising (suite_list l) py_len) ls = Inr counts"
    using sized
  proof (induction ls)
    case Nil
    show ?case by simp
  next
    case (Cons l ls)
    then obtain n counts where "raising (suite_list l) py_len = Inr n"
      "for_each (\<lambda>l. raising (suite_list l) py_len) ls = Inr counts"
      by auto
    then show ?case by simp
  qed
  with assms show "\<exists>m. process_market_snapshot t data = Inr m"
    by (auto simp: process_market_snapshot_def py_len_of_iter)
qed

text \<open>C3, witness: the example payload, with one listing of two suites.\<close>

theorem market_snapshot_counts_witness:
  "extract_listings payload_A1 = Inr (JList [listing_A1]) \<and>
   py_iter (JList [listing_A1]) = Inr [listing_A1] \<and>
   process_market_snapshot ''t0'' payload_A1 = Inr market_A1 \<and>
   field ''total_properties'' market_A1 = Some (JInt (int (length [listing_A1]))) \<and>
   field ''total_suites'' market_A1
     = Some (JInt (int (\<Sum>l\<leftarrow>[listing_A1]. fallback_suite_count l))) \<and>
   fallback_suite_count listing_A1 = 2"
proof -
  have e: "extract_listings payload_A1 = Inr (JList [listing_A1])"
    by (simp add: extract_listings_def payload_A1_def)
  have i: "py_iter (JList [listing_A1]) = Inr [listing_A1]" by simp
  have c: "fallback_suite_count listing_A1 = 2"
    by (simp add: fallback_suite_count_def listing_A1_def)
  from market_snapshot_counts[OF e i, of "''t0''"] market_of_A1 e c show ?thesis
    by simp
qed

section \<open>Properties of the suite snapshot builder\<close>

text \<open>
  C8. In every suite record produced by the suite snapshot builder, \<^verbatim>\<open>crexi_asset_id\<close> and
  \<^verbatim>\<open>crexi_suite_id\<close> are present and hold a string: \<^verbatim>\<open>str\<close> of the value found under
  \<^verbatim>\<open>id\<close>, or else \<^verbatim>\<open>assetId\<close> (for the suite: \<^verbatim>\<open>suiteId\<close>), in the listing (the suite)
  the record was made of. When neither key exists the identifier is the empty string.
\<close>

theorem suite_identifiers_are_strings:
  assumes "process_suite_snapshots repr now data = Inr rs" and "r \<in> set rs"
  shows "\<exists>v items lkvs ss skvs.
           extract_listings data = Inr v \<and> py_iter v = Inr items \<and>
           JDict lkvs \<in> set items \<and> suites_of (JDict lkvs) = Inr ss \<and> JDict skvs \<in> set ss \<and>
           field ''raw_data'' r = Some (JDict skvs) \<and>
           field ''crexi_asset_id'' r = Some (JStr (py_str repr
             (case first_present lkvs [''id'', ''assetId''] of Some x \<Rightarrow> x | None \<Rightarrow> JStr []))) \<and>
           field ''crexi_suite_id'' r = Some (JStr (py_str repr
             (case first_present skvs [''id'', ''suiteId''] of Some x \<Rightarrow> x | None \<Rightarrow> JStr []))) \<and>
           (map_of lkvs ''id'' = None \<and> map_of lkvs ''assetId'' = None \<longrightarrow>
              field ''crexi_asset_id'' r = Some (JStr [])) \<and>
           (map_of skvs ''id'' = None \<and> map_of skvs ''suiteId'' = None \<longrightarrow>
              field ''crexi_suite_id'' r = Some (JStr []))"
proof -
  from process_suite_snapshots_Inr[OF assms(1)] obtain v items where
    v: "extract_listings data = Inr v" "py_iter v = Inr items" and
    lp: "listing_loop repr now 0 items = Inr rs"
    by blast
  from listing_loop_member[OF lp assms(2)] obtain l ss s t where
    l: "l \<in> set items" "suites_of l = Inr ss" "s \<in> set ss" and
    r: "suite_snapshot repr t l s = Inr r"
    by blast
  from suite_snapshot_Inr[OF r] obtain lkvs skvs where
    d: "l = JDict lkvs" "s = JDict skvs" and
    raw: "field ''raw_data'' r = Some s" and
    a: "field ''crexi_asset_id'' r = Some (JStr (py_str repr
             (case map_of lkvs ''id'' of Some v \<Rightarrow> v | None \<Rightarrow>
                (case map_of lkvs ''assetId'' of Some v \<Rightarrow> v | None \<Rightarrow> JStr []))))" and
    b: "field ''crexi_suite_id'' r = Some (JStr (py_str repr
             (case map_of skvs ''id'' of Some v \<Rightarrow> v | None \<Rightarrow>
                (case map_of skvs ''suiteId'' of Some v \<Rightarrow> v | None \<Rightarrow> JStr []))))"
    by blast
  have a': "field ''crexi_asset_id'' r = Some (JStr (py_str repr
             (case first_present lkvs [''id'', ''assetId''] of Some x \<Rightarrow> x | None \<Rightarrow> JStr [])))"
    using a by (simp split: option.splits)
  have b': "field ''crexi_suite_id'' r = Some (JStr (py_str repr
             (case first_present skvs [''id'', ''suiteId''] of Some x \<Rightarrow> x | None \<Rightarrow> JStr [])))"
    using b by (simp split: option.splits)
  have a0: "map_of lkvs ''id'' = None \<and> map_of lkvs ''assetId'' = None \<longrightarrow>
              field ''crexi_asset_id'' r = Some (JStr [])"
    using a by simp
  have b0: "map_of skvs ''id'' = None \<and> map_of skvs ''suiteId'' = None \<longrightarrow>
              field ''crexi_suite_id'' r = Some (JStr [])"
    using b by simp
  from v l d raw a' b' a0 b0 show ?thesis by blast
qed

text \<open>
  C8, witness: the payload \<^verbatim>\<open>{"data": [{"squareFeet": 500, "suites": [{"id": 7}]}]}\<close>. The
  listing has no id under either name, so the asset id is the empty string; the id of the
  suite is the number 7, so the suite id is the string "7".
\<close>

theorem suite_identifiers_are_strings_witness:
  "process_suite_snapshots (\<lambda>v. []) (\<lambda>k. ''t1'') payload_no_id = Inr [record_no_id] \<and>
   field ''crexi_asset_id'' record_no_id = Some (JStr []) \<and>
   field ''crexi_suite_id'' record_no_id = Some (JStr ''7'') \<and>
   (\<exists>v items lkvs ss skvs.
      extract_listings payload_no_id = Inr v \<and> py_iter v = Inr items \<and>
      JDict lkvs \<in> set items \<and> suites_of (JDict lkvs) = Inr ss \<and> JDict skvs \<in> set ss \<and>
      field ''raw_data'' record_no_id = Some (JDict skvs) \<and>
      field ''crexi_asset_id'' record_no_id = Some (JStr (py_str (\<lambda>v. [])
        (case first_present lkvs [''id'', ''assetId''] of Some x \<Rightarrow> x | None \<Rightarrow> JStr []))) \<and>
      field ''crexi_suite_id'' record_no_id = Some (JStr (py_str (\<lambda>v. [])
        (case first_present skvs [''id'', ''suiteId''] of Some x \<Rightarrow> x | None \<Rightarrow> JStr []))))"
proof -
  have built: "process_suite_snapshots (\<lambda>v. []) (\<lambda>k. ''t1'') payload_no_id = Inr [record_no_id]"
    by (simp add: process_suite_snapshots_def extract_listings_def suite_list_def
        suite_snapshot_def TARGET_MARKET_def payload_no_id_def record_no_id_def
        str_int_def)
  have ids: "field ''crexi_asset_id'' record_no_id = Some (JStr [])"
    "field ''crexi_suite_id'' record_no_id = Some (JStr ''7'')"
    by (simp_all add: record_no_id_def)
  have mem: "record_no_id \<in> set [record_no_id]" by simp
  from suite_identifiers_are_strings[OF built mem] built ids show ?thesis
    by blast
qed

text \<open>
  C9. For every suite object lacking both \<^verbatim>\<open>size\<close> and \<^verbatim>\<open>squareFeet\<close>, the record made
  of it carries \<^verbatim>\<open>None\<close> (JSON null) as \<^verbatim>\<open>suite_size\<close>, and for every suite object lacking
  both \<^verbatim>\<open>rate\<close> and \<^verbatim>\<open>leaseRate\<close> the record carries \<^verbatim>\<open>None\<close> as \<^verbatim>\<open>lease_rate\<close>: never a
  number and never a string. This holds of the record made of any one suite, and of every
  record the suite snapshot builder returns, whose source suite is its \<^verbatim>\<open>raw_data\<close>.
\<close>

theorem missing_numeric_fields_are_null:
  "(map_of skvs ''size'' = None \<and> map_of skvs ''squareFeet'' = None \<longrightarrow>
      (\<exists>r. suite_snapshot repr t (JDict lkvs) (JDict skvs) = Inr r \<and>
           field ''suite_size'' r = Some JNull)) \<and>
   (map_of skvs ''rate'' = None \<and> map_of skvs ''leaseRate'' = None \<longrightarrow>
      (\<exists>r. suite_snapshot repr t (JDict lkvs) (JDict skvs) = Inr r \<and>
           field ''lease_rate'' r = Some JNull)) \<and>
   (process_suite_snapshots repr now data = Inr rs \<longrightarrow>
      (\<forall>r\<in>set rs. \<exists>kvs. field ''raw_data'' r = Some (JDict kvs) \<and>
         (map_of kvs ''size'' = None \<and> map_of kvs ''squareFeet'' = None \<longrightarrow>
            field ''suite_size'' r = Some JNull) \<and>
         (map_of kvs ''rate'' = None \<and> map_of kvs ''leaseRate'' = None \<longrightarrow>
            field ''lease_rate'' r = Some JNull)))"
proof (intro conjI impI ballI)
  assume "map_of skvs ''size'' = None \<and> map_of skvs ''squareFeet'' = None"
  then show "\<exists>r. suite_snapshot repr t (JDict lkvs) (JDict skvs) = Inr r \<and>
           field ''suite_size'' r = Some JNull"
    by (simp add: suite_snapshot_def)
next
  assume "map_of skvs ''rate'' = None \<and> map_of skvs ''leaseRate'' = None"
  then show "\<exists>r. suite_snapshot repr t (JDict lkvs) (JDict skvs) = Inr r \<and>
           field ''lease_rate'' r = Some JNull"
    by (simp add: suite_snapshot_def)
next
  fix r assume built: "process_suite_snapshots repr now data = Inr rs" and r: "r \<in> set rs"
  from process_suite_snapshots_Inr[OF built] obtain items where
    lp: "listing_loop repr now 0 items = Inr rs"
    by blast
  from listing_loop_member[OF lp r] obtain l s t' where
    "suite_snapshot repr t' l s = Inr r"
    by blast
  from suite_snapshot_Inr[OF this] obtain kvs where
    raw: "field ''raw_data'' r = Some (JDict kvs)" and
    sz: "field ''suite_size'' r = Some
             (case map_of kvs ''size'' of Some v \<Rightarrow> v | None \<Rightarrow>
                (case map_of kvs ''squareFeet'' of Some v \<Rightarrow> v | None \<Rightarrow> JNull))" and
    rt: "field ''lease_rate'' r = Some
             (case map_of kvs ''rate'' of Some v \<Rightarrow> v | None \<Rightarrow>
                (case map_of kvs ''leaseRate'' of Some v \<Rightarrow> v | None \<Rightarrow> JNull))"
    by blast
  have "(map_of kvs ''size'' = None \<and> map_of kvs ''squareFeet'' = None \<longrightarrow>
            field ''suite_size'' r = Some JNull) \<and>
        (map_of kvs ''rate'' = None \<and> map_of kvs ''leaseRate'' = None \<longrightarrow>
            field ''lease_rate'' r = Some JNull)"
    using sz rt by simp
  with raw show "\<exists>kvs. field ''raw_data'' r = Some (JDict kvs) \<and>
         (map_of kvs ''size'' = None \<and> map_of kvs ''squareFeet'' = None \<longrightarrow>
            field ''suite_size'' r = Some JNull) \<and>
         (map_of kvs ''rate'' = None \<and> map_of kvs ''leaseRate'' = None \<longrightarrow>
            field ''lease_rate'' r = Some JNull)"
    by blast
qed

text \<open>
  C9, witness: the payload \<^verbatim>\<open>{"data": [{"squareFeet": 500, "suites": [{"id": 7}]}]}\<close> again.
  Its suite \<^verbatim>\<open>{"id": 7}\<close> has none of the four keys, and both fields of its record are
  null, although the listing has a \<^verbatim>\<open>squareFeet\<close>.
\<close>

theorem missing_numeric_fields_are_null_witness:
  "process_suite_snapshots (\<lambda>v. []) (\<lambda>k. ''t1'') payload_no_id = Inr [record_no_id] \<and>
   field ''raw_data'' record_no_id = Some (JDict [(''id'', JInt 7)]) \<and>
   field ''suite_size'' record_no_id = Some JNull \<and>
   field ''lease_rate'' record_no_id = Some JNull \<and>
   (\<exists>r. suite_snapshot (\<lambda>v. []) ''t1'' (JDict [(''squareFeet'', JInt 500)]) (JDict [(''id'', JInt 7)])
          = Inr r \<and> field ''suite_size'' r = Some JNull) \<and>
   (\<exists>r. suite_snapshot (\<lambda>v. []) ''t1'' (JDict [(''squareFeet'', JInt 500)]) (JDict [(''id'', JInt 7)])
          = Inr r \<and> field ''lease_rate'' r = Some JNull)"
proof -
  have built: "process_suite_snapshots (\<lambda>v. []) (\<lambda>k. ''t1'') payload_no_id = Inr [record_no_id]"
    by (simp add: process_suite_snapshots_def extract_listings_def suite_list_def
        suite_snapshot_def TARGET_MARKET_def payload_no_id_def record_no_id_def
        str_int_def)
  have raw: "field ''raw_data'' record_no_id = Some (JDict [(''id'', JInt 7)])"
    by (simp add: record_no_id_def)
  have absent: "map_of [(''id'', JInt 7)] ''size'' = None \<and>
      map_of [(''id'', JInt 7)] ''squareFeet'' = None"
    "map_of [(''id'', JInt 7)] ''rate'' = None \<and>
      map_of [(''id'', JInt 7)] ''leaseRate'' = None"
    by simp_all
  note rule = missing_numeric_fields_are_null[of "[(''id'', JInt 7)]" "\<lambda>v. []" "''t1''"
      "[(''squareFeet'', JInt 500)]" "\<lambda>k. ''t1''" payload_no_id "[record_no_id]"]
  from rule built have
    "\<exists>kvs. field ''raw_data'' record_no_id = Some (JDict kvs) \<and>
         (map_of kvs ''size'' = None \<and> map_of kvs ''squareFeet'' = None \<longrightarrow>
            field ''suite_size'' record_no_id = Some JNull) \<and>
         (map_of kvs ''rate'' = None \<and> map_of kvs ''leaseRate'' = None \<longrightarrow>
            field ''lease_rate'' record_no_id = Some JNull)"
    by simp
  with raw absent have
    "field ''suite_size'' record_no_id = Some JNull"
    "field ''lease_rate'' record_no_id = Some JNull"
    by auto
  with rule absent built raw show ?thesis by blast
qed

text \<open>
  C10. For every raw payload from which the suite snapshot builder returns records, the
  market snapshot builder returns a snapshot of the same payload too, and its
  \<^verbatim>\<open>total_suites\<close> is the number of those records. The suite snapshot builder does
  return records for every payload of the expected shape.
\<close>

theorem suite_count_agrees:
  "(process_suite_snapshots repr now data = Inr rs \<longrightarrow>
      (\<exists>m. process_market_snapshot t data = Inr m \<and>
           field ''total_suites'' m = Some (JInt (int (length rs))))) \<and>
   (well_shaped data \<longrightarrow> (\<exists>rs'. process_suite_snapshots repr now data = Inr rs'))"
proof (intro conjI impI)
  assume built: "process_suite_snapshots repr now data = Inr rs"
  from process_suite_snapshots_Inr[OF built] obtain listings items where
    ex: "extract_listings data = Inr listings" and
    it: "py_iter listings = Inr items" and
    lp: "listing_loop repr now 0 items = Inr rs"
    by blast
  from listing_loop_Inr[OF lp] obtain sss where
    sss: "map suites_of items = map Inr sss" and
    raw: "map (field ''raw_data'') rs = map Some (concat sss)"
    by blast
  from raw have "length rs = length (concat sss)" by (metis length_map)
  then have len: "length rs = sum_list (map length sss)" by (simp add: length_concat)
  from suite_counts_of_suites[OF sss] ex it len
  show "\<exists>m. process_market_snapshot t data = Inr m \<and>
           field ''total_suites'' m = Some (JInt (int (length rs)))"
    by (simp add: process_market_snapshot_def py_len_of_iter)
next
  assume "well_shaped data"
  then show "\<exists>rs'. process_suite_snapshots repr now data = Inr rs'"
    by (rule process_suite_snapshots_total)
qed

text \<open>C10, witness: the example payload, which has the expected shape; two records, and
  \<^verbatim>\<open>total_suites\<close> is 2.\<close>

theorem suite_count_agrees_witness:
  "well_shaped payload_A1 \<and>
   process_suite_snapshots (\<lambda>v. []) (\<lambda>k. ''t1'') payload_A1 = Inr records_A1 \<and>
   length records_A1 = 2 \<and>
   (\<exists>m. process_market_snapshot ''t0'' payload_A1 = Inr m \<and>
        field ''total_suites'' m = Some (JInt (int (length records_A1))))"
proof -
  have shape: "well_shaped payload_A1"
    by (simp add: well_shaped_def shaped_listing_def suites_of_def suite_list_def
        extract_listings_def payload_A1_def listing_A1_def)
  have two: "length records_A1 = 2" by (simp add: records_A1_def)
  from suite_count_agrees[of "\<lambda>v. []" "\<lambda>k. ''t1''" payload_A1 records_A1 "''t0''"]
    suites_A1 shape two
  show ?thesis by blast
qed

section \<open>Properties of the configuration loader\<close>

lemma missing_variables_filter:
  "missing_variables env = map fst (filter (\<lambda>nv. unset (snd nv env)) required_variables)"
  by (simp add: missing_variables_def required_variables_def)

text \<open>
  C7. For every environment in which \<open>k\<close> of the three required variables, \<open>k\<close> at least
  1, are unset or empty, the loader's first message lists exactly those \<open>k\<close> names, in one
  line, separated by commas (the four lines that follow are a fixed hint), and it raises
  \<^verbatim>\<open>SystemExit(1)\<close>: the run ends with exit status 1 and has made no call to the outside,
  neither to the network nor to the database.
\<close>

theorem missing_variables_reported:
  assumes "k = length (filter (\<lambda>nv. unset (snd nv env)) required_variables)" and "1 \<le> k"
  shows "missing_variables env = map fst (filter (\<lambda>nv. unset (snd nv env)) required_variables) \<and>
         length (missing_variables env) = k \<and>
         distinct (missing_variables env) \<and>
         validate_environment env =
           ([cross_mark @ '' Missing required environment variables: '' @
               py_join '', '' (missing_variables env),
             CHR 0x0A # ''Please set them in your environment or .env file:'',
             ''  export CREXI_API_KEY='' @ [CHR 0x27] @ ''your-api-key'' @ [CHR 0x27],
             ''  export SUPABASE_URL='' @ [CHR 0x27] @ ''your-supabase-url'' @ [CHR 0x27],
             ''  export SUPABASE_KEY='' @ [CHR 0x27] @ ''your-supabase-key'' @ [CHR 0x27]],
            Inl (SystemExit 1)) \<and>
         main env create_client get ins clock repr = ([], Inl (SystemExit 1)) \<and>
         exit_status (snd (main env create_client get ins clock repr)) = 1"
proof -
  have f: "missing_variables env = map fst (filter (\<lambda>nv. unset (snd nv env)) required_variables)"
    by (rule missing_variables_filter)
  with assms have len: "length (missing_variables env) = k" by simp
  with assms(2) have ne: "missing_variables env \<noteq> []" by auto
  have d: "distinct (missing_variables env)"
    by (simp add: missing_variables_def)
  from ne have v: "validate_environment env =
           ([cross_mark @ '' Missing required environment variables: '' @
               py_join '', '' (missing_variables env),
             CHR 0x0A # ''Please set them in your environment or .env file:'',
             ''  export CREXI_API_KEY='' @ [CHR 0x27] @ ''your-api-key'' @ [CHR 0x27],
             ''  export SUPABASE_URL='' @ [CHR 0x27] @ ''your-supabase-url'' @ [CHR 0x27],
             ''  export SUPABASE_KEY='' @ [CHR 0x27] @ ''your-supabase-key'' @ [CHR 0x27]],
            Inl (SystemExit 1))"
    by (simp add: validate_environment_def Let_def)
  then have m: "main env create_client get ins clock repr = ([], Inl (SystemExit 1))"
    by (simp add: main_def)
  then have "exit_status (snd (main env create_client get ins clock repr)) = 1"
    by (simp add: exit_status_def)
  with f len d v m show ?thesis by blast
qed

text \<open>
  C7, witness: \<^verbatim>\<open>CREXI_API_KEY\<close> absent and \<^verbatim>\<open>SUPABASE_URL\<close> empty. The message names
  the two, and the run ends with status 1 without an event.
\<close>

theorem missing_variables_reported_witness:
  "length (filter (\<lambda>nv. unset (snd nv env_two_missing)) required_variables) = 2 \<and>
   missing_variables env_two_missing = [''CREXI_API_KEY'', ''SUPABASE_URL''] \<and>
   fst (validate_environment env_two_missing) ! 0 =
     cross_mark @ '' Missing required environment variables: CREXI_API_KEY, SUPABASE_URL'' \<and>
   snd (validate_environment env_two_missing) = Inl (SystemExit 1) \<and>
   main env_two_missing client_ok network_down insert_ok (\<lambda>k. []) (\<lambda>v. [])
     = ([], Inl (SystemExit 1)) \<and>
   exit_status (snd (main env_two_missing client_ok network_down insert_ok (\<lambda>k. []) (\<lambda>v. []))) = 1"
proof -
  have k: "2 = length (filter (\<lambda>nv. unset (snd nv env_two_missing)) required_variables)"
    by (simp add: required_variables_def env_two_missing_def unset_def)
  have one: "1 \<le> (2::nat)" by simp
  have names: "map fst (filter (\<lambda>nv. unset (snd nv env_two_missing)) required_variables)
      = [''CREXI_API_KEY'', ''SUPABASE_URL'']"
    by (simp add: required_variables_def env_two_missing_def unset_def)
  note r = missing_variables_reported[OF k one, of client_ok network_down insert_ok "\<lambda>k. []" "\<lambda>v. []"]
  from r names have m: "missing_variables env_two_missing = [''CREXI_API_KEY'', ''SUPABASE_URL'']"
    by simp
  from r have "fst (validate_environment env_two_missing) ! 0 =
     cross_mark @ '' Missing required environment variables: '' @
       py_join '', '' (missing_variables env_two_missing)"
    by simp
  with m have line: "fst (validate_environment env_two_missing) ! 0 =
     cross_mark @ '' Missing required environment variables: CREXI_API_KEY, SUPABASE_URL''"
    by simp
  from r have out: "snd (validate_environment env_two_missing) = Inl (SystemExit 1)"
    by simp
  from r have run: "main env_two_missing client_ok network_down insert_ok (\<lambda>k. []) (\<lambda>v. [])
     = ([], Inl (SystemExit 1))"
    "exit_status (snd (main env_two_missing client_ok network_down insert_ok (\<lambda>k. []) (\<lambda>v. []))) = 1"
    by blast+
  from k m line out run show ?thesis by simp
qed

section \<open>Properties of the batch persister\<close>

lemma chunks_Nil: "chunks n [] = []"
  by (simp add: chunks.simps)

lemma chunks_step: "0 < n \<Longrightarrow> xs \<noteq> [] \<Longrightarrow> chunks n xs = take n xs # chunks n (drop n xs)"
  by (subst chunks.simps) simp

lemma concat_chunks: "0 < n \<Longrightarrow> concat (chunks n xs) = xs"
proof (induction n xs rule: chunks.induct)
  case (1 n xs)
  show ?case
  proof (cases "xs = []")
    case True
    then show ?thesis by (simp add: chunks_Nil)
  next
    case False
    with 1 have "concat (chunks n (drop n xs)) = drop n xs" by simp
    with False 1(2) show ?thesis by (simp add: chunks_step)
  qed
qed

lemma length_chunks: "0 < n \<Longrightarrow> length (chunks n xs) = (length xs + n - 1) div n"
proof (induction n xs rule: chunks.induct)
  case (1 n xs)
  show ?case
  proof (cases "xs = []")
    case True
    with 1(2) show ?thesis by (simp add: chunks_Nil)
  next
    case False
    with 1 have ih: "length (chunks n (drop n xs)) = (length (drop n xs) + n - 1) div n" by simp
    show ?thesis
    proof (cases "length xs \<le> n")
      case True
      with False 1(2) have "length xs + n - 1 < 2 * n" "n \<le> length xs + n - 1"
        by (cases xs; simp)+
      then have "(length xs + n - 1) div n = 1"
        by (metis One_nat_def Suc_eq_plus1 div_nat_eqI mult.commute mult_2_right
            nat_mult_1_right)
      with True False 1(2) ih show ?thesis by (simp add: chunks_step)
    next
      case gt: False
      then have "length xs + n - 1 = (length xs - n + n - 1) + n" by simp
      then have "(length xs + n - 1) div n = Suc ((length xs - n + n - 1) div n)"
        using 1(2) by (metis Suc_eq_plus1 div_add_self2 less_numeral_extra(3))
      with False 1(2) ih show ?thesis by (simp add: chunks_step)
    qed
  qed
qed

lemma nth_chunks:
  "0 < n \<Longrightarrow> i < length (chunks n xs) \<Longrightarrow> chunks n xs ! i = take n (drop (i * n) xs)"
proof (induction n xs arbitrary: i rule: chunks.induct)
  case (1 n xs)
  show ?case
  proof (cases "xs = []")
    case True
    with 1(3) show ?thesis by (simp add: chunks_Nil)
  next
    case False
    note step = chunks_step[OF 1(2) False]
    show ?thesis
    proof (cases i)
      case 0
      with step show ?thesis by (simp)
    next
      case (Suc j)
      with 1(3) step have "j < length (chunks n (drop n xs))" by (simp)
      with 1(1)[of j] 1(2) False have "chunks n (drop n xs) ! j = take n (drop (j * n) (drop n xs))"
        by simp
      with Suc step show ?thesis by (simp add: add.commute)
    qed
  qed
qed

lemma batch_loop_issue:
  "batch_loop ins n i xs =
     (case issue ins n (map (\<lambda>batch. (''crexi_suite_snapshots'', JList batch))
                          (chunks 100 (drop i xs))) of
        (calls, r) \<Rightarrow> (calls, (case r of Inl e \<Rightarrow> Some e | Inr u \<Rightarrow> None)))"
proof (induction ins n i xs rule: batch_loop.induct)
  case (1 ins n i xs)
  show ?case
  proof (cases "i < length xs")
    case False
    then show ?thesis by (subst batch_loop.simps) (simp add: chunks_Nil)
  next
    case True
    then have ne: "drop i xs \<noteq> []" by simp
    have step: "chunks 100 (drop i xs) = take 100 (drop i xs) # chunks 100 (drop (i + 100) xs)"
      using chunks_step[OF _ ne, of 100] by (simp add: add.commute)
    show ?thesis
    proof (cases "ins n ''crexi_suite_snapshots'' (JList (take 100 (drop i xs)))")
      case (Some e)
      with True step show ?thesis
        by (subst batch_loop.simps) (simp)
    next
      case None
      with 1[OF True refl None] True step show ?thesis
        by (subst batch_loop.simps)
          (simp split: prod.splits)
    qed
  qed
qed

lemma save_to_supabase_issue:
  "save_to_supabase ins m suites = issue ins 0 (planned_inserts m suites)"
proof (cases "ins 0 ''crexi_market_snapshots'' m")
  case (Some e)
  then show ?thesis by (simp add: save_to_supabase_def planned_inserts_def)
next
  case None
  show ?thesis
  proof (cases "suites = []")
    case True
    with None show ?thesis
      by (simp add: save_to_supabase_def planned_inserts_def chunks_Nil)
  next
    case False
    with None show ?thesis
      by (simp add: save_to_supabase_def planned_inserts_def batch_loop_issue
          split: prod.splits sum.splits)
  qed
qed

lemma issue_all:
  "(\<forall>j<length cs. ins (n + j) (fst (cs ! j)) (snd (cs ! j)) = None) \<Longrightarrow>
     issue ins n cs = (cs, Inr ())"
proof (induction cs arbitrary: n)
  case Nil
  show ?case by simp
next
  case (Cons c cs)
  from Cons.prems have "ins n (fst c) (snd c) = None" by fastforce
  moreover have "\<forall>j<length cs. ins (Suc n + j) (fst (cs ! j)) (snd (cs ! j)) = None"
    using Cons.prems by fastforce
  from Cons.IH[OF this] have "issue ins (Suc n) cs = (cs, Inr ())" .
  ultimately show ?case by simp
qed

lemma issue_first_failure:
  "k < length cs \<Longrightarrow>
   (\<forall>j<k. ins (n + j) (fst (cs ! j)) (snd (cs ! j)) = None) \<Longrightarrow>
   ins (n + k) (fst (cs ! k)) (snd (cs ! k)) = Some e \<Longrightarrow>
     issue ins n cs = (take (Suc k) cs, Inl e)"
proof (induction cs arbitrary: n k)
  case Nil
  then show ?case by simp
next
  case (Cons c cs)
  show ?case
  proof (cases k)
    case 0
    with Cons.prems show ?thesis by simp
  next
    case (Suc k')
    with Cons.prems have c: "ins n (fst c) (snd c) = None" by fastforce
    from Suc Cons.prems have k': "k' < length cs" by simp
    have prev: "\<forall>j<k'. ins (Suc n + j) (fst (cs ! j)) (snd (cs ! j)) = None"
      using Cons.prems(2) Suc by fastforce
    have fail: "ins (Suc n + k') (fst (cs ! k')) (snd (cs ! k')) = Some e"
      using Cons.prems(3) Suc by simp
    from Cons.IH[OF k' prev fail] c Suc show ?thesis by simp
  qed
qed

lemma issue_prefix:
  "issue ins n cs = (calls, r) \<Longrightarrow> \<exists>k\<le>length cs. calls = take k cs"
proof (induction cs arbitrary: n calls r)
  case Nil
  then show ?case by simp
next
  case (Cons c cs)
  show ?case
  proof (cases "ins n (fst c) (snd c)")
    case (Some e)
    with Cons.prems have "calls = take 1 (c # cs)" by simp
    then show ?thesis by (metis One_nat_def Suc_leI length_Cons zero_less_Suc)
  next
    case None
    with Cons.prems obtain calls' where c': "issue ins (Suc n) cs = (calls', r)" "calls = c # calls'"
      by (auto split: prod.splits)
    from Cons.IH[OF c'(1)] obtain k where "k \<le> length cs" "calls' = take k cs" by blast
    with c'(2) have "Suc k \<le> length (c # cs) \<and> calls = take (Suc k) (c # cs)" by simp
    then show ?thesis by blast
  qed
qed

text \<open>A run that reaches the persister hands its outcome on as it is.\<close>

lemma main_reaches_persister:
  assumes "snd (validate_environment env) = Inr ()"
    and "create_client (SUPABASE_URL env) (SUPABASE_KEY env) = None"
    and "fetch_crexi_listings get (CREXI_API_KEY env) = (sent, Inr result)"
    and "field ''success'' result = Some (JBool True)"
    and "field ''data'' result = Some data"
    and "process_market_snapshot (clock 0) data = Inr m"
    and "process_suite_snapshots repr (\<lambda>k. clock (Suc k)) data = Inr suites"
  shows "main env create_client get ins clock repr =
           (ClientCreated (SUPABASE_URL env) (SUPABASE_KEY env) # map HttpGet sent @
              map (\<lambda>c. DbInsert (fst c) (snd c)) (fst (save_to_supabase ins m suites)),
            snd (save_to_supabase ins m suites))"
  using assms by (simp add: main_def Let_def split: prod.splits)

lemma persister_prefix:
  "\<exists>k\<le>length (chunks 100 suites).
      fst (save_to_supabase ins m suites) =
        (''crexi_market_snapshots'', m) #
        map (\<lambda>batch. (''crexi_suite_snapshots'', JList batch)) (take k (chunks 100 suites))"
proof -
  let ?cs = "chunks 100 suites"
  let ?calls = "map (\<lambda>batch. (''crexi_suite_snapshots'', JList batch)) ?cs"
  show ?thesis
  proof (cases "ins 0 ''crexi_market_snapshots'' m")
    case (Some x)
    then have "fst (save_to_supabase ins m suites) = (''crexi_market_snapshots'', m) #
        map (\<lambda>batch. (''crexi_suite_snapshots'', JList batch)) (take 0 ?cs)"
      by (simp add: save_to_supabase_def)
    then show ?thesis by blast
  next
    case None
    obtain calls r where cr: "issue ins 1 ?calls = (calls, r)"
      by (cases "issue ins 1 ?calls")
    from issue_prefix[OF cr] obtain k where
      k: "k \<le> length ?cs" "calls = take k ?calls"
      by auto
    from None cr have "fst (save_to_supabase ins m suites) = (''crexi_market_snapshots'', m) # calls"
      by (simp add: save_to_supabase_issue planned_inserts_def)
    with k(2) have "fst (save_to_supabase ins m suites) = (''crexi_market_snapshots'', m) #
        map (\<lambda>batch. (''crexi_suite_snapshots'', JList batch)) (take k ?cs)"
      by (simp add: take_map)
    with k(1) show ?thesis by blast
  qed
qed

lemma chunks_100_each:
  assumes i: "i < length (chunks 100 suites)"
  shows "chunks 100 suites ! i = take 100 (drop (i * 100) suites) \<and>
      0 < length (chunks 100 suites ! i) \<and> length (chunks 100 suites ! i) \<le> 100 \<and>
      (Suc i < length (chunks 100 suites) \<longrightarrow> length (chunks 100 suites ! i) = 100)"
proof -
  let ?cs = "chunks 100 suites"
  have len: "length ?cs = (length suites + 99) div 100"
    using length_chunks[of 100 suites] by simp
  from nth_chunks[OF _ i] have n: "?cs ! i = take 100 (drop (i * 100) suites)" by simp
  from i len have "i < (length suites + 99) div 100" by simp
  then have lt: "i * 100 < length suites" by arith
  have pos: "0 < length (?cs ! i)" unfolding n using lt by simp
  have le: "length (?cs ! i) \<le> 100" unfolding n by simp
  have full: "Suc i < length ?cs \<longrightarrow> length (?cs ! i) = 100"
  proof
    assume "Suc i < length ?cs"
    with len have "Suc i < (length suites + 99) div 100" by simp
    then have "i * 100 + 100 < length suites" by arith
    then show "length (?cs ! i) = 100" unfolding n by simp
  qed
  from n pos le full show ?thesis by blast
qed

lemma planned_inserts_250:
  assumes l: "length suites = 250"
  shows "planned_inserts m suites =
        [(''crexi_market_snapshots'', m),
         (''crexi_suite_snapshots'', JList (take 100 suites)),
         (''crexi_suite_snapshots'', JList (take 100 (drop 100 suites))),
         (''crexi_suite_snapshots'', JList (drop 200 suites))]"
proof -
  from l have s0: "suites \<noteq> []" by auto
  from l have s1: "drop 100 suites \<noteq> []" by simp
  from l have s2: "drop 200 suites \<noteq> []" by simp
  from l have s3: "drop 300 suites = []" by simp
  from l have t3: "take 100 (drop 200 suites) = drop 200 suites" by simp
  have c0: "chunks 100 suites = take 100 suites # chunks 100 (drop 100 suites)"
    using chunks_step[OF _ s0, of 100] by simp
  have c1: "chunks 100 (drop 100 suites)
        = take 100 (drop 100 suites) # chunks 100 (drop 200 suites)"
    using chunks_step[OF _ s1, of 100] by simp
  have c2: "chunks 100 (drop 200 suites) = drop 200 suites # chunks 100 (drop 300 suites)"
    using chunks_step[OF _ s2, of 100] t3 by simp
  have c3: "chunks 100 (drop 300 suites) = []" using s3 by (simp add: chunks_Nil)
  from c0 c1 c2 c3 have
    "chunks 100 suites = [take 100 suites, take 100 (drop 100 suites), drop 200 suites]"
    by simp
  then show ?thesis by (simp add: planned_inserts_def)
qed

text \<open>
  C6. The persister issues the single market-snapshot insert first. If that insert raises,
  no suite insert is issued. If it succeeds, the suite snapshots are inserted in order in
  batches of 100, batch \<open>i\<close> being the elements from index \<open>100 i\<close> up to \<open>100 i + 100\<close>, so
  that only the last batch can be smaller (for 250 records: the market insert, then
  batches of 100, 100 and 50). The first insert that raises is the last one issued, and
  its exception is the outcome of the persister and, unchanged, of the whole run.
\<close>

theorem persister_order:
  "save_to_supabase ins m suites = issue ins 0 (planned_inserts m suites) \<and>
   (\<exists>k\<le>length (chunks 100 suites).
      fst (save_to_supabase ins m suites) =
        (''crexi_market_snapshots'', m) #
        map (\<lambda>batch. (''crexi_suite_snapshots'', JList batch)) (take k (chunks 100 suites))) \<and>
   (ins 0 ''crexi_market_snapshots'' m = Some e \<longrightarrow>
      save_to_supabase ins m suites = ([(''crexi_market_snapshots'', m)], Inl e)) \<and>
   ((\<forall>j<length (planned_inserts m suites).
       ins j (fst (planned_inserts m suites ! j)) (snd (planned_inserts m suites ! j)) = None) \<longrightarrow>
      save_to_supabase ins m suites = (planned_inserts m suites, Inr ())) \<and>
   (k < length (planned_inserts m suites) \<and>
    (\<forall>j<k. ins j (fst (planned_inserts m suites ! j)) (snd (planned_inserts m suites ! j)) = None) \<and>
    ins k (fst (planned_inserts m suites ! k)) (snd (planned_inserts m suites ! k)) = Some e \<longrightarrow>
      save_to_supabase ins m suites = (take (Suc k) (planned_inserts m suites), Inl e)) \<and>
   concat (chunks 100 suites) = suites \<and>
   length (chunks 100 suites) = (length suites + 99) div 100 \<and>
   (\<forall>i<length (chunks 100 suites).
      chunks 100 suites ! i = take 100 (drop (i * 100) suites) \<and>
      0 < length (chunks 100 suites ! i) \<and> length (chunks 100 suites ! i) \<le> 100 \<and>
      (Suc i < length (chunks 100 suites) \<longrightarrow> length (chunks 100 suites ! i) = 100)) \<and>
   (length suites = 250 \<longrightarrow>
      planned_inserts m suites =
        [(''crexi_market_snapshots'', m),
         (''crexi_suite_snapshots'', JList (take 100 suites)),
         (''crexi_suite_snapshots'', JList (take 100 (drop 100 suites))),
         (''crexi_suite_snapshots'', JList (drop 200 suites))] \<and>
      length (take 100 suites) = 100 \<and> length (take 100 (drop 100 suites)) = 100 \<and>
      length (drop 200 suites) = 50) \<and>
   (snd (validate_environment env) = Inr () \<and>
    create_client (SUPABASE_URL env) (SUPABASE_KEY env) = None \<and>
    fetch_crexi_listings get (CREXI_API_KEY env) = (sent, Inr result) \<and>
    field ''success'' result = Some (JBool True) \<and>
    field ''data'' result = Some data \<and>
    process_market_snapshot (clock 0) data = Inr m \<and>
    process_suite_snapshots repr (\<lambda>k. clock (Suc k)) data = Inr suites \<longrightarrow>
      main env create_client get ins clock repr =
        (ClientCreated (SUPABASE_URL env) (SUPABASE_KEY env) # map HttpGet sent @
           map (\<lambda>c. DbInsert (fst c) (snd c)) (fst (save_to_supabase ins m suites)),
         snd (save_to_supabase ins m suites)))"
proof (intro conjI)
  let ?plan = "planned_inserts m suites"
  let ?cs = "chunks 100 suites"
  show "save_to_supabase ins m suites = issue ins 0 ?plan"
    by (rule save_to_supabase_issue)
  show "\<exists>k\<le>length ?cs. fst (save_to_supabase ins m suites) =
        (''crexi_market_snapshots'', m) #
        map (\<lambda>batch. (''crexi_suite_snapshots'', JList batch)) (take k ?cs)"
    by (rule persister_prefix)
  show "ins 0 ''crexi_market_snapshots'' m = Some e \<longrightarrow>
      save_to_supabase ins m suites = ([(''crexi_market_snapshots'', m)], Inl e)"
    by (simp add: save_to_supabase_def)
  show "(\<forall>j<length ?plan. ins j (fst (?plan ! j)) (snd (?plan ! j)) = None) \<longrightarrow>
      save_to_supabase ins m suites = (?plan, Inr ())"
    using issue_all[of ?plan ins 0] by (simp add: save_to_supabase_issue)
  show "k < length ?plan \<and>
    (\<forall>j<k. ins j (fst (?plan ! j)) (snd (?plan ! j)) = None) \<and>
    ins k (fst (?plan ! k)) (snd (?plan ! k)) = Some e \<longrightarrow>
      save_to_supabase ins m suites = (take (Suc k) ?plan, Inl e)"
    using issue_first_failure[of k ?plan ins 0 e] by (simp add: save_to_supabase_issue)
  show "concat ?cs = suites" by (rule concat_chunks) simp
  show "length ?cs = (length suites + 99) div 100"
    using length_chunks[of 100 suites] by simp
  show "\<forall>i<length ?cs.
      ?cs ! i = take 100 (drop (i * 100) suites) \<and>
      0 < length (?cs ! i) \<and> length (?cs ! i) \<le> 100 \<and>
      (Suc i < length ?cs \<longrightarrow> length (?cs ! i) = 100)"
    using chunks_100_each by blast
  show "length suites = 250 \<longrightarrow>
      ?plan =
        [(''crexi_market_snapshots'', m),
         (''crexi_suite_snapshots'', JList (take 100 suites)),
         (''crexi_suite_snapshots'', JList (take 100 (drop 100 suites))),
         (''crexi_suite_snapshots'', JList (drop 200 suites))] \<and>
      length (take 100 suites) = 100 \<and> length (take 100 (drop 100 suites)) = 100 \<and>
      length (drop 200 suites) = 50"
    using planned_inserts_250[of suites m] by simp
  show "snd (validate_environment env) = Inr () \<and>
    create_client (SUPABASE_URL env) (SUPABASE_KEY env) = None \<and>
    fetch_crexi_listings get (CREXI_API_KEY env) = (sent, Inr result) \<and>
    field ''success'' result = Some (JBool True) \<and>
    field ''data'' result = Some data \<and>
    process_market_snapshot (clock 0) data = Inr m \<and>
    process_suite_snapshots repr (\<lambda>k. clock (Suc k)) data = Inr suites \<longrightarrow>
      main env create_client get ins clock repr =
        (ClientCreated (SUPABASE_URL env) (SUPABASE_KEY env) # map HttpGet sent @
           map (\<lambda>c. DbInsert (fst c) (snd c)) (fst (save_to_supabase ins m suites)),
         snd (save_to_supabase ins m suites))"
    using main_reaches_persister[of env create_client get sent result data clock m repr suites ins]
    by blast
qed

lemma validate_env_complete: "validate_environment env_complete = ([], Inr ())"
  by (simp add: validate_environment_def missing_variables_def env_complete_def unset_def)

lemma fetch_network_A1:
  "fetch_crexi_listings network_A1 (Some ''key'') = ([first_request], Inr result_A1)"
  by (simp add: fetch_crexi_listings_def base_urls_def endpoint_options_def headers_options_def
      attempt_def network_A1_def payload_A1_def first_request_def result_A1_def
      CREXI_BASE_URL_def)

lemma clock_A1_readings:
  "clock_A1 0 = ''t0''" "(\<lambda>k. clock_A1 (Suc k)) = (\<lambda>k. ''t1'')"
  by (simp_all add: clock_A1_def)

text \<open>
  C6, witness: 250 suite records. With a database that takes every insert the persister
  issues the market insert and three batches of 100, 100 and 50; when the market insert
  raises, that insert is the only one; when the second batch raises, the third is never
  issued. And a complete run over the example payload whose market insert raises ends
  with that very exception, after the one insert.
\<close>

theorem persister_order_witness:
  "save_to_supabase insert_ok market_A1 (replicate 250 JNull) =
     ([(''crexi_market_snapshots'', market_A1),
       (''crexi_suite_snapshots'', JList (replicate 100 JNull)),
       (''crexi_suite_snapshots'', JList (replicate 100 JNull)),
       (''crexi_suite_snapshots'', JList (replicate 50 JNull))], Inr ()) \<and>
   save_to_supabase market_insert_fails market_A1 (replicate 250 JNull) =
     ([(''crexi_market_snapshots'', market_A1)], Inl (OtherException ''market table is down'')) \<and>
   save_to_supabase second_batch_fails market_A1 (replicate 250 JNull) =
     ([(''crexi_market_snapshots'', market_A1),
       (''crexi_suite_snapshots'', JList (replicate 100 JNull)),
       (''crexi_suite_snapshots'', JList (replicate 100 JNull))], Inl (OtherException ''timeout'')) \<and>
   main env_complete client_ok network_A1 market_insert_fails clock_A1 (\<lambda>v. []) =
     ([ClientCreated (Some ''https://db.example'') (Some ''secret''), HttpGet first_request,
       DbInsert ''crexi_market_snapshots'' market_A1],
      Inl (OtherException ''market table is down''))"
proof -
  let ?plan = "[(''crexi_market_snapshots'', market_A1),
       (''crexi_suite_snapshots'', JList (replicate 100 JNull)),
       (''crexi_suite_snapshots'', JList (replicate 100 JNull)),
       (''crexi_suite_snapshots'', JList (replicate 50 JNull))]"
  have plan: "planned_inserts market_A1 (replicate 250 JNull) = ?plan"
    using persister_order[where m = market_A1 and suites = "replicate 250 JNull"]
    by simp
  have ok: "\<forall>j<length ?plan. insert_ok j (fst (?plan ! j)) (snd (?plan ! j)) = None"
    by (simp add: insert_ok_def)
  have a: "save_to_supabase insert_ok market_A1 (replicate 250 JNull) = (?plan, Inr ())"
    using persister_order[where ins = insert_ok and m = market_A1 and
        suites = "replicate 250 JNull"] ok
    unfolding plan by blast
  have down: "market_insert_fails 0 ''crexi_market_snapshots'' market_A1
      = Some (OtherException ''market table is down'')"
    by (simp add: market_insert_fails_def)
  have b: "save_to_supabase market_insert_fails market_A1 suites =
     ([(''crexi_market_snapshots'', market_A1)], Inl (OtherException ''market table is down''))"
    for suites
    using persister_order[where ins = market_insert_fails and m = market_A1 and
        suites = suites and e = "OtherException ''market table is down''"] down
    by blast
  have two: "(2::nat) < length ?plan" by simp
  have before: "\<forall>j<2. second_batch_fails j (fst (?plan ! j)) (snd (?plan ! j)) = None"
    by (simp add: second_batch_fails_def)
  have at: "second_batch_fails 2 (fst (?plan ! 2)) (snd (?plan ! 2)) = Some (OtherException ''timeout'')"
    by (simp add: second_batch_fails_def)
  have "save_to_supabase second_batch_fails market_A1 (replicate 250 JNull) =
      (take (Suc 2) ?plan, Inl (OtherException ''timeout''))"
    using persister_order[where ins = second_batch_fails and m = market_A1 and
        suites = "replicate 250 JNull" and k = 2 and e = "OtherException ''timeout''"]
      two before at
    unfolding plan by blast
  then have c: "save_to_supabase second_batch_fails market_A1 (replicate 250 JNull) =
     ([(''crexi_market_snapshots'', market_A1),
       (''crexi_suite_snapshots'', JList (replicate 100 JNull)),
       (''crexi_suite_snapshots'', JList (replicate 100 JNull))], Inl (OtherException ''timeout''))"
    by simp
  have pre: "snd (validate_environment env_complete) = Inr () \<and>
    client_ok (SUPABASE_URL env_complete) (SUPABASE_KEY env_complete) = None \<and>
    fetch_crexi_listings network_A1 (CREXI_API_KEY env_complete) = ([first_request], Inr result_A1) \<and>
    field ''success'' result_A1 = Some (JBool True) \<and>
    field ''data'' result_A1 = Some payload_A1 \<and>
    process_market_snapshot (clock_A1 0) payload_A1 = Inr market_A1 \<and>
    process_suite_snapshots (\<lambda>v. []) (\<lambda>k. clock_A1 (Suc k)) payload_A1 = Inr records_A1"
    using validate_env_complete fetch_network_A1 market_of_A1 suites_A1
    by (simp add: clock_A1_readings client_ok_def result_A1_def env_complete_def)
  have "main env_complete client_ok network_A1 market_insert_fails clock_A1 (\<lambda>v. []) =
        (ClientCreated (SUPABASE_URL env_complete) (SUPABASE_KEY env_complete) #
           map HttpGet [first_request] @
           map (\<lambda>c. DbInsert (fst c) (snd c))
             (fst (save_to_supabase market_insert_fails market_A1 records_A1)),
         snd (save_to_supabase market_insert_fails market_A1 records_A1))"
    using persister_order[where ins = market_insert_fails and m = market_A1 and
        suites = records_A1 and env = env_complete and create_client = client_ok and
        get = network_A1 and sent = "[first_request]" and result = result_A1 and
        data = payload_A1 and clock = clock_A1 and repr = "\<lambda>v. []"] pre
    by blast
  then have d: "main env_complete client_ok network_A1 market_insert_fails clock_A1 (\<lambda>v. []) =
     ([ClientCreated (Some ''https://db.example'') (Some ''secret''), HttpGet first_request,
       DbInsert ''crexi_market_snapshots'' market_A1],
      Inl (OtherException ''market table is down''))"
    by (simp add: b env_complete_def)
  from a b c d show ?thesis unfolding plan by blast
qed

section \<open>Properties of the endpoint prober\<close>

lemma not_ok_passed_over: "not_ok a \<Longrightarrow> passed_over a"
  by (auto simp: not_ok_def passed_over_def split: sum.splits)

lemma py_len_error: "py_len v = Inl e \<Longrightarrow> e = TypeError"
  by (cases v) simp_all

lemma attempt_Continue_iff: "attempt get n rq = Continue \<longleftrightarrow> passed_over (get n rq)"
proof (cases "get n rq")
  case (Inl e)
  then show ?thesis by (simp add: attempt_def passed_over_def)
next
  case (Inr response)
  show ?thesis
  proof (cases "status_code response = 200")
    case False
    with Inr show ?thesis by (simp add: attempt_def passed_over_def)
  next
    case True
    show ?thesis
    proof (cases "json_body response")
      case (Inl e)
      with Inr True show ?thesis by (simp add: attempt_def passed_over_def)
    next
      case body: (Inr data)
      have "attempt get n rq \<noteq> Continue"
      proof (cases data)
        case (JDict kvs)
        with Inr True body show ?thesis
          by (cases "py_len (case map_of kvs ''results'' of
                None \<Rightarrow> (case map_of kvs ''data'' of None \<Rightarrow> JList [] | Some v \<Rightarrow> v)
              | Some v \<Rightarrow> v)")
            (auto simp add: attempt_def dest: py_len_error)
      qed (use Inr True body in \<open>simp_all add: attempt_def\<close>)
      with Inr True body show ?thesis by (simp add: passed_over_def)
    qed
  qed
qed

lemma attempt_Return:
  assumes "get n rq = Inr response" and "status_code response = 200"
    and "json_body response = Inr data" and "countable_body data"
  shows "attempt get n rq =
           Return (JDict [(''success'', JBool True), (''endpoint'', JStr (url rq)),
                          (''headers'', JDict (headers rq)), (''data'', data)])"
proof -
  from assms(4) obtain kvs where d: "data = JDict kvs"
    by (cases data) (simp_all add: countable_body_def)
  from assms(4) d obtain len where
    "py_len (case map_of kvs ''results'' of
                None \<Rightarrow> (case map_of kvs ''data'' of None \<Rightarrow> JList [] | Some v \<Rightarrow> v)
              | Some v \<Rightarrow> v) = Inr len"
    by (auto simp: countable_body_def split: sum.splits option.splits)
  with assms(1-3) d show ?thesis by (simp add: attempt_def)
qed

lemma attempt_Return_success:
  assumes "attempt get n rq = Return v"
  shows "field ''success'' v = Some (JBool True)"
proof -
  from assms obtain data where
    "v = JDict [(''success'', JBool True), (''endpoint'', JStr (url rq)),
                (''headers'', JDict (headers rq)), (''data'', data)]"
    by (auto simp: attempt_def raising_Inr_iff split: sum.splits option.splits if_splits)
  then show ?thesis by simp
qed

lemma probe_all_continue:
  "(\<forall>i<length rqs. attempt get (n + i) (rqs ! i) = Continue) \<longleftrightarrow>
     probe get n rqs = (rqs, Continue)"
proof (induction rqs arbitrary: n)
  case Nil
  show ?case by simp
next
  case (Cons rq rqs)
  show ?case
  proof (cases "attempt get n rq = Continue")
    case False
    then have "probe get n (rq # rqs) = ([rq], attempt get n rq)"
      by (cases "attempt get n rq") simp_all
    with False show ?thesis by auto
  next
    case True
    have shift: "(\<forall>i<length (rq # rqs). attempt get (n + i) ((rq # rqs) ! i) = Continue) \<longleftrightarrow>
        (\<forall>i<length rqs. attempt get (Suc n + i) (rqs ! i) = Continue)"
    proof
      assume a: "\<forall>i<length (rq # rqs). attempt get (n + i) ((rq # rqs) ! i) = Continue"
      show "\<forall>i<length rqs. attempt get (Suc n + i) (rqs ! i) = Continue"
      proof (intro allI impI)
        fix i assume "i < length rqs"
        with a[rule_format, of "Suc i"] show "attempt get (Suc n + i) (rqs ! i) = Continue"
          by simp
      qed
    next
      assume a: "\<forall>i<length rqs. attempt get (Suc n + i) (rqs ! i) = Continue"
      show "\<forall>i<length (rq # rqs). attempt get (n + i) ((rq # rqs) ! i) = Continue"
      proof (intro allI impI)
        fix i assume "i < length (rq # rqs)"
        with a True show "attempt get (n + i) ((rq # rqs) ! i) = Continue"
          by (cases i) simp_all
      qed
    qed
    from True have "probe get n (rq # rqs) = (rq # rqs, Continue) \<longleftrightarrow>
        probe get (Suc n) rqs = (rqs, Continue)"
      by (auto split: prod.splits)
    with shift Cons.IH[of "Suc n"] show ?thesis by simp
  qed
qed

lemma probe_Continue_sent: "probe get n rqs = (sent, Continue) \<Longrightarrow> sent = rqs"
proof (induction rqs arbitrary: n sent)
  case Nil
  then show ?case by simp
next
  case (Cons rq rqs)
  show ?case
  proof (cases "attempt get n rq")
    case Continue
    with Cons.prems obtain sent' where
      "probe get (Suc n) rqs = (sent', Continue)" "sent = rq # sent'"
      by (auto split: prod.splits)
    with Cons.IH show ?thesis by blast
  next
    case (Return v)
    with Cons.prems show ?thesis by simp
  next
    case (Raise e)
    with Cons.prems show ?thesis by simp
  qed
qed

lemma probe_first:
  "k < length rqs \<Longrightarrow>
   (\<forall>i<k. attempt get (n + i) (rqs ! i) = Continue) \<Longrightarrow>
   attempt get (n + k) (rqs ! k) \<noteq> Continue \<Longrightarrow>
     probe get n rqs = (take (Suc k) rqs, attempt get (n + k) (rqs ! k))"
proof (induction rqs arbitrary: n k)
  case Nil
  then show ?case by simp
next
  case (Cons rq rqs)
  show ?case
  proof (cases k)
    case 0
    with Cons.prems show ?thesis by (cases "attempt get n rq") simp_all
  next
    case (Suc k')
    with Cons.prems(2) have c: "attempt get n rq = Continue" by fastforce
    from Suc Cons.prems(1) have k': "k' < length rqs" by simp
    have prev: "\<forall>i<k'. attempt get (Suc n + i) (rqs ! i) = Continue"
      using Cons.prems(2) Suc by fastforce
    have stop: "attempt get (Suc n + k') (rqs ! k') \<noteq> Continue"
      using Cons.prems(3) Suc by simp
    from Cons.IH[OF k' prev stop] c Suc show ?thesis by simp
  qed
qed

lemma probe_Return_success:
  "probe get n rqs = (sent, Return v) \<Longrightarrow> field ''success'' v = Some (JBool True)"
proof (induction rqs arbitrary: n sent)
  case Nil
  then show ?case by simp
next
  case (Cons rq rqs)
  show ?case
  proof (cases "attempt get n rq")
    case Continue
    with Cons.prems obtain sent' where "probe get (Suc n) rqs = (sent', Return v)"
      by (auto split: prod.splits)
    with Cons.IH show ?thesis by blast
  next
    case (Return w)
    with Cons.prems have "w = v" by simp
    with Return attempt_Return_success show ?thesis by blast
  next
    case (Raise e)
    with Cons.prems show ?thesis by simp
  qed
qed

lemma probe_append:
  "probe get n (xs @ ys) =
     (case probe get n xs of
        (sent, Continue) \<Rightarrow>
          (case probe get (n + length sent) ys of (sent', r) \<Rightarrow> (sent @ sent', r))
      | (sent, r) \<Rightarrow> (sent, r))"
proof (induction xs arbitrary: n)
  case Nil
  show ?case by (simp split: prod.splits)
next
  case (Cons x xs)
  show ?case
  proof (cases "attempt get n x")
    case Continue
    with Cons.IH[of "Suc n"] show ?thesis
      by (simp split: prod.splits flow.splits)
  next
    case (Return v)
    then show ?thesis by simp
  next
    case (Raise e)
    then show ?thesis by simp
  qed
qed

lemma headers_loop_probe:
  "headers_loop get n u hs =
     probe get n (map (\<lambda>h. \<lparr>url = u, headers = h, params = search_params, timeout = 10\<rparr>) hs)"
  by (induction hs arbitrary: n) (simp_all add: Let_def split: flow.splits)

lemma endpoint_loop_probe:
  "endpoint_loop get n key base_url eps =
     probe get n (concat (map (\<lambda>endpoint.
         map (\<lambda>h. \<lparr>url = base_url @ endpoint, headers = h,
                    params = search_params, timeout = 10\<rparr>)
           (headers_options key)) eps))"
proof (induction eps arbitrary: n)
  case Nil
  show ?case by simp
next
  case (Cons ep eps)
  show ?case
    by (simp add: probe_append headers_loop_probe Cons.IH split: prod.splits flow.splits)
qed

lemma base_url_loop_probe:
  "base_url_loop get n key bs =
     probe get n (concat (map (\<lambda>base_url.
       concat (map (\<lambda>endpoint.
         map (\<lambda>h. \<lparr>url = base_url @ endpoint, headers = h,
                    params = search_params, timeout = 10\<rparr>)
           (headers_options key))
         endpoint_options)) bs))"
proof (induction bs arbitrary: n)
  case Nil
  show ?case by simp
next
  case (Cons b bs)
  show ?case
    by (simp add: probe_append endpoint_loop_probe Cons.IH split: prod.splits flow.splits)
qed

lemma fetch_probe:
  "fetch_crexi_listings get key =
     (case probe get 0 (combinations key) of
        (sent, Continue) \<Rightarrow> (sent, Inr no_endpoint)
      | (sent, Return result) \<Rightarrow> (sent, Inr result)
      | (sent, Raise e) \<Rightarrow> (sent, Inl e))"
  by (simp add: fetch_crexi_listings_def base_url_loop_probe combinations_def)

lemma length_combinations: "length (combinations key) = 36"
  by (simp add: combinations_def base_urls_def endpoint_options_def headers_options_def)

lemma nth_concat_uniform:
  "(\<forall>xs\<in>set xss. length xs = m) \<Longrightarrow> i < length xss \<Longrightarrow> j < m \<Longrightarrow>
     concat xss ! (i * m + j) = xss ! i ! j"
proof (induction xss arbitrary: i)
  case Nil
  then show ?case by simp
next
  case (Cons xs xss)
  show ?case
  proof (cases i)
    case 0
    with Cons.prems show ?thesis by (simp add: nth_append)
  next
    case (Suc i')
    with Cons.prems have "concat xss ! (i' * m + j) = xss ! i' ! j"
      by (intro Cons.IH) simp_all
    moreover have "length xs = m" using Cons.prems(1) by simp
    ultimately show ?thesis using Suc by (simp add: nth_append)
  qed
qed

lemma nth_combinations:
  assumes "b < 2" and "e < 6" and "h < 3"
  shows "combinations key ! (18 * b + 3 * e + h) =
           \<lparr>url = base_urls ! b @ endpoint_options ! e, headers = headers_options key ! h,
            params = search_params, timeout = 10\<rparr>"
proof -
  let ?rq = "\<lambda>base_url endpoint h. \<lparr>url = base_url @ endpoint, headers = h,
                    params = search_params, timeout = 10\<rparr>"
  let ?inner = "\<lambda>base_url. map (\<lambda>endpoint. map (?rq base_url endpoint) (headers_options key))
                   endpoint_options"
  let ?outer = "map (\<lambda>base_url. concat (?inner base_url)) base_urls"
  have lh: "length (headers_options key) = 3" by (simp add: headers_options_def)
  have le: "length endpoint_options = 6" by (simp add: endpoint_options_def)
  have lb: "length base_urls = 2" by (simp add: base_urls_def)
  have in_len: "\<forall>xs\<in>set (?inner base_url). length xs = 3" for base_url
    using lh by simp
  have out_len: "\<forall>xs\<in>set ?outer. length xs = 18"
    using lh le by (auto simp: length_concat comp_def sum_list_triv)
  from assms(2,3) have eh: "e * 3 + h < 18" by simp
  have "combinations key ! (b * 18 + (e * 3 + h)) = ?outer ! b ! (e * 3 + h)"
    unfolding combinations_def
    using nth_concat_uniform[OF out_len, of b "e * 3 + h"] assms(1) lb eh by simp
  also have "?outer ! b = concat (?inner (base_urls ! b))"
    using assms(1) lb by simp
  also have "concat (?inner (base_urls ! b)) ! (e * 3 + h) = ?inner (base_urls ! b) ! e ! h"
    using nth_concat_uniform[OF in_len, of e "base_urls ! b" h] assms(2,3) le by simp
  also have "\<dots> = ?rq (base_urls ! b) (endpoint_options ! e) (headers_options key ! h)"
    using assms(2,3) le lh by simp
  finally show ?thesis by (simp add: mult.commute add.assoc)
qed

lemma fetch_first_success:
  assumes k: "k < 36"
    and before: "\<forall>i<k. passed_over (get i (combinations key ! i))"
    and answer: "get k (combinations key ! k) = Inr response"
    and ok: "status_code response = 200"
    and body: "json_body response = Inr data"
    and shape: "countable_body data"
  shows "fetch_crexi_listings get key =
           (take (Suc k) (combinations key),
            Inr (JDict [(''success'', JBool True),
                        (''endpoint'', JStr (url (combinations key ! k))),
                        (''headers'', JDict (headers (combinations key ! k))),
                        (''data'', data)]))"
proof -
  let ?rqs = "combinations key"
  from k have k': "k < length ?rqs" by (simp add: length_combinations)
  have c: "\<forall>i<k. attempt get (0 + i) (?rqs ! i) = Continue"
    using before by (simp add: attempt_Continue_iff)
  have r: "attempt get (0 + k) (?rqs ! k) =
      Return (JDict [(''success'', JBool True), (''endpoint'', JStr (url (?rqs ! k))),
                     (''headers'', JDict (headers (?rqs ! k))), (''data'', data)])"
    using attempt_Return[of get k "?rqs ! k" response data] answer ok body shape by simp
  then have "attempt get (0 + k) (?rqs ! k) \<noteq> Continue" by simp
  from probe_first[OF k' c this] r show ?thesis
    by (simp add: fetch_probe)
qed

lemma fetch_no_endpoint_iff:
  "snd (fetch_crexi_listings get key) = Inr no_endpoint \<longleftrightarrow>
     (\<forall>i<36. passed_over (get i (combinations key ! i)))"
proof -
  let ?rqs = "combinations key"
  obtain sent r where p: "probe get 0 ?rqs = (sent, r)" by (cases "probe get 0 ?rqs")
  have "snd (fetch_crexi_listings get key) = Inr no_endpoint \<longleftrightarrow> r = Continue"
  proof (cases r)
    case Continue
    with p show ?thesis by (simp add: fetch_probe)
  next
    case (Return v)
    with p probe_Return_success have "field ''success'' v = Some (JBool True)" by blast
    then have "v \<noteq> no_endpoint" by (auto simp: no_endpoint_def)
    with p Return show ?thesis by (simp add: fetch_probe)
  next
    case (Raise e)
    with p show ?thesis by (simp add: fetch_probe)
  qed
  also have "r = Continue \<longleftrightarrow> probe get 0 ?rqs = (?rqs, Continue)"
    using p probe_Continue_sent by auto
  also have "\<dots> \<longleftrightarrow> (\<forall>i<length ?rqs. attempt get (0 + i) (?rqs ! i) = Continue)"
    by (rule probe_all_continue[symmetric])
  finally show ?thesis by (simp add: attempt_Continue_iff length_combinations)
qed

lemma fetch_no_endpoint_sent:
  assumes "snd (fetch_crexi_listings get key) = Inr no_endpoint"
  shows "fetch_crexi_listings get key = (combinations key, Inr no_endpoint)"
proof -
  from assms have "\<forall>i<36. passed_over (get i (combinations key ! i))"
    by (simp add: fetch_no_endpoint_iff)
  then have "\<forall>i<length (combinations key).
      attempt get (0 + i) (combinations key ! i) = Continue"
    by (simp add: attempt_Continue_iff length_combinations)
  then have "probe get 0 (combinations key) = (combinations key, Continue)"
    by (simp only: probe_all_continue)
  then show ?thesis by (simp add: fetch_probe)
qed


lemma combinations_key:
  "combinations (Some ''key'') =
     concat (map (\<lambda>base_url. concat (map (\<lambda>endpoint.
         [\<lparr>url = base_url @ endpoint, headers = [(''Authorization'', JStr ''Bearer key'')],
           params = search_params, timeout = 10\<rparr>,
          \<lparr>url = base_url @ endpoint, headers = [(''x-api-key'', JStr ''key'')],
           params = search_params, timeout = 10\<rparr>,
          \<lparr>url = base_url @ endpoint, headers = [(''api-key'', JStr ''key'')],
           params = search_params, timeout = 10\<rparr>])
       [''/v1/listings'', ''/v1/properties'', ''/api/v1/listings'', ''/api/v1/properties'',
        ''/listings'', ''/properties'']))
     [''https://api.crexi.com'', ''https://stage-api.crexi.com''])"
  by (simp add: combinations_def base_urls_def endpoint_options_def headers_options_def
      CREXI_BASE_URL_def CREXI_STAGE_URL_def)

lemma countable_payload_A1: "countable_body payload_A1"
  by (simp add: countable_body_def payload_A1_def)

text \<open>
  C4. The claim is that the prober stops at the first combination whose response has
  status 200 and returns that combination's URL and headers together with the response
  body. The code does not do so on this run: the API key is \<^verbatim>\<open>key\<close> and the first
  combination is answered with status 200 and the body \<^verbatim>\<open>{"results": null}\<close>. The
  prober sends that one request and then raises a \<^verbatim>\<open>TypeError\<close> instead of returning:
  after line 101 has announced the working endpoint, the message of line 103 takes the
  length of \<^verbatim>\<open>None\<close>, and the handler catches \<^verbatim>\<open>RequestException\<close> only.
\<close>

theorem first_ok_raises_at_log_line:
  "fetch_crexi_listings network_null_results (Some ''key'') = ([first_request], Inl TypeError)"
  by (simp add: fetch_crexi_listings_def base_urls_def endpoint_options_def headers_options_def
      attempt_def network_null_results_def first_request_def CREXI_BASE_URL_def)

text \<open>
  The runs on which the message of line 103 does not raise. The combinations are tried in
  the fixed nested order base URL, endpoint path, header scheme: combination number
  \<open>18 b + 3 e + h\<close> is made of base URL \<open>b\<close>, path \<open>e\<close> and header scheme \<open>h\<close>. When the
  first response with status 200 carries a body on which line 103 does not raise, all
  earlier answers having been a transport failure or another status, the prober stops all
  iteration there and returns that combination's URL and headers together with the
  decoded body, having sent exactly the requests up to that one.
\<close>

theorem first_success_wins:
  assumes "k < 36"
    and "\<forall>i<k. not_ok (get i (combinations key ! i))"
    and "get k (combinations key ! k) = Inr response"
    and "status_code response = 200"
    and "json_body response = Inr data"
    and "countable_body data"
  shows "fetch_crexi_listings get key =
           (take (Suc k) (combinations key),
            Inr (JDict [(''success'', JBool True),
                        (''endpoint'', JStr (url (combinations key ! k))),
                        (''headers'', JDict (headers (combinations key ! k))),
                        (''data'', data)])) \<and>
         length (fst (fetch_crexi_listings get key)) = Suc k \<and>
         (\<forall>b<2. \<forall>e<6. \<forall>h<3.
            combinations key ! (18 * b + 3 * e + h) =
              \<lparr>url = base_urls ! b @ endpoint_options ! e, headers = headers_options key ! h,
               params = search_params, timeout = 10\<rparr>)"
proof -
  from assms(2) have before: "\<forall>i<k. passed_over (get i (combinations key ! i))"
    using not_ok_passed_over by blast
  have f: "fetch_crexi_listings get key =
           (take (Suc k) (combinations key),
            Inr (JDict [(''success'', JBool True),
                        (''endpoint'', JStr (url (combinations key ! k))),
                        (''headers'', JDict (headers (combinations key ! k))),
                        (''data'', data)]))"
    using fetch_first_success[of k get key response data] assms(1,3-6) before by blast
  from assms(1) have "length (take (Suc k) (combinations key)) = Suc k"
    by (simp add: length_combinations)
  with f have l: "length (fst (fetch_crexi_listings get key)) = Suc k" by simp
  from f l nth_combinations show ?thesis by blast
qed

text \<open>
  Such a run: the API key is \<^verbatim>\<open>key\<close>, the first five requests are answered 404 and the
  sixth 200 with the example payload. Six requests are sent, three to
  \<^verbatim>\<open>/v1/listings\<close> and three to \<^verbatim>\<open>/v1/properties\<close> of the production host, and the
  result names the sixth combination: the second path with the third header scheme.
\<close>

theorem first_success_wins_witness:
  "fetch_crexi_listings network_sixth (Some ''key'') =
     (take 6 (combinations (Some ''key'')),
      Inr (JDict [(''success'', JBool True),
                  (''endpoint'', JStr ''https://api.crexi.com/v1/properties''),
                  (''headers'', JDict [(''api-key'', JStr ''key'')]),
                  (''data'', payload_A1)])) \<and>
   length (fst (fetch_crexi_listings network_sixth (Some ''key''))) = 6 \<and>
   map url (take 6 (combinations (Some ''key''))) =
     [''https://api.crexi.com/v1/listings'', ''https://api.crexi.com/v1/listings'',
      ''https://api.crexi.com/v1/listings'', ''https://api.crexi.com/v1/properties'',
      ''https://api.crexi.com/v1/properties'', ''https://api.crexi.com/v1/properties''] \<and>
   map headers (take 6 (combinations (Some ''key''))) =
     [[(''Authorization'', JStr ''Bearer key'')], [(''x-api-key'', JStr ''key'')],
      [(''api-key'', JStr ''key'')], [(''Authorization'', JStr ''Bearer key'')],
      [(''x-api-key'', JStr ''key'')], [(''api-key'', JStr ''key'')]]"
proof -
  have k: "(5::nat) < 36" by simp
  have before: "\<forall>i<5. not_ok (network_sixth i (combinations (Some ''key'') ! i))"
    by (simp add: network_sixth_def not_ok_def not_found_def)
  have answer: "network_sixth 5 (combinations (Some ''key'') ! 5)
      = Inr \<lparr>status_code = 200, json_body = Inr payload_A1\<rparr>"
    by (simp add: network_sixth_def)
  have sixth: "combinations (Some ''key'') ! 5 =
      \<lparr>url = ''https://api.crexi.com/v1/properties'', headers = [(''api-key'', JStr ''key'')],
       params = search_params, timeout = 10\<rparr>"
    by (simp add: combinations_key)
  have sent: "take 6 (combinations (Some ''key'')) =
      [\<lparr>url = ''https://api.crexi.com/v1/listings'',
        headers = [(''Authorization'', JStr ''Bearer key'')],
        params = search_params, timeout = 10\<rparr>,
       \<lparr>url = ''https://api.crexi.com/v1/listings'', headers = [(''x-api-key'', JStr ''key'')],
        params = search_params, timeout = 10\<rparr>,
       \<lparr>url = ''https://api.crexi.com/v1/listings'', headers = [(''api-key'', JStr ''key'')],
        params = search_params, timeout = 10\<rparr>,
       \<lparr>url = ''https://api.crexi.com/v1/properties'',
        headers = [(''Authorization'', JStr ''Bearer key'')],
        params = search_params, timeout = 10\<rparr>,
       \<lparr>url = ''https://api.crexi.com/v1/properties'', headers = [(''x-api-key'', JStr ''key'')],
        params = search_params, timeout = 10\<rparr>,
       \<lparr>url = ''https://api.crexi.com/v1/properties'', headers = [(''api-key'', JStr ''key'')],
        params = search_params, timeout = 10\<rparr>]"
    by (simp add: combinations_key)
  have urls: "map url (take 6 (combinations (Some ''key''))) =
     [''https://api.crexi.com/v1/listings'', ''https://api.crexi.com/v1/listings'',
      ''https://api.crexi.com/v1/listings'', ''https://api.crexi.com/v1/properties'',
      ''https://api.crexi.com/v1/properties'', ''https://api.crexi.com/v1/properties'']"
    unfolding sent by simp
  have hs: "map headers (take 6 (combinations (Some ''key''))) =
     [[(''Authorization'', JStr ''Bearer key'')], [(''x-api-key'', JStr ''key'')],
      [(''api-key'', JStr ''key'')], [(''Authorization'', JStr ''Bearer key'')],
      [(''x-api-key'', JStr ''key'')], [(''api-key'', JStr ''key'')]]"
    unfolding sent by simp
  have w: "fetch_crexi_listings network_sixth (Some ''key'') =
           (take 6 (combinations (Some ''key'')),
            Inr (JDict [(''success'', JBool True),
                        (''endpoint'', JStr (url (combinations (Some ''key'') ! 5))),
                        (''headers'', JDict (headers (combinations (Some ''key'') ! 5))),
                        (''data'', payload_A1)])) \<and>
         length (fst (fetch_crexi_listings network_sixth (Some ''key''))) = 6"
    using first_success_wins[of 5 network_sixth "Some ''key''"
        "\<lparr>status_code = 200, json_body = Inr payload_A1\<rparr>" payload_A1]
      k before answer countable_payload_A1
    by (simp add: length_combinations)
  then have f: "fetch_crexi_listings network_sixth (Some ''key'') =
     (take 6 (combinations (Some ''key'')),
      Inr (JDict [(''success'', JBool True),
                  (''endpoint'', JStr ''https://api.crexi.com/v1/properties''),
                  (''headers'', JDict [(''api-key'', JStr ''key'')]),
                  (''data'', payload_A1)]))"
    by (simp add: sixth)
  from w have "length (fst (fetch_crexi_listings network_sixth (Some ''key''))) = 6"
    by blast
  with f urls hs show ?thesis by blast
qed





text \<open>
  A run in which every request is answered with status 200 and a body that is not JSON,
  the decoder raising the HTTP library's own exception: the handler swallows every one
  of them, and the failure result is returned although every response had status 200.
\<close>

lemma undecodable_ok_is_passed_over:
  "fetch_crexi_listings network_html (Some ''key'') = (combinations (Some ''key''), Inr no_endpoint)"
proof -
  have "\<forall>i<36. passed_over (network_html i (combinations (Some ''key'') ! i))"
    by (simp add: network_html_def passed_over_def)
  then have "snd (fetch_crexi_listings network_html (Some ''key'')) = Inr no_endpoint"
    by (simp only: fetch_no_endpoint_iff)
  then show ?thesis by (rule fetch_no_endpoint_sent)
qed

end
